theory Spec2Isabelle
  imports Main
begin

section \<open>Task construction of sup (task.go)\<close>

text \<open>
  A shallow embedding of \<^verbatim>\<open>task.go\<close>: the two task variants, the method
  \<^verbatim>\<open>TemplateTask.InputForClient\<close> and the builder \<^verbatim>\<open>Stackup.createTasks\<close>.
  What the builder calls outside of \<^verbatim>\<open>task.go\<close> (the working directory, path
  resolution, the tar stream, file access, the template parser, the YAML decoder, the
  connect of the localhost client) is a field of the record \<open>World\<close>; every such call
  that can fail in Go returns a sum, \<open>Inl\<close> holding the error.
\<close>

subsection \<open>Errors\<close>

text \<open>An error is the text its \<^verbatim>\<open>Error()\<close> method returns.\<close>

type_synonym error = string

text \<open>
  \<^verbatim>\<open>errors.Wrap(err, message)\<close> of github.com/pkg/errors: the message of the result is
  the message, a colon and a blank, and the message of the wrapped error.
\<close>

definition Wrap :: "error \<Rightarrow> string \<Rightarrow> error" where
  "Wrap err message = message @ '': '' @ err"

text \<open>\<^verbatim>\<open>strings.Contains(s, substr)\<close>, used to say that an error message names a path.\<close>

primrec Contains :: "string \<Rightarrow> string \<Rightarrow> bool" where
  "Contains [] substr = (substr = [])"
| "Contains (c # s) substr = (take (length substr) (c # s) = substr \<or> Contains s substr)"

subsection \<open>Data\<close>

text \<open>
  The command specification. Its declaration is not part of \<^verbatim>\<open>task.go\<close>; the fields
  are the ones \<open>createTasks\<close> reads, with the types it reads them at.
\<close>

record Upload =
  Src :: string
  Dst :: string
  Exc :: string

record Template =
  Src :: string
  Dst :: string
  Vars :: string

record Command =
  Upload :: "Upload list"
  Template :: Template
  Script :: string
  Local :: string
  Run :: string
  Once :: bool
  Serial :: int
  Stdin :: bool

record Stackup =
  debug :: bool

text \<open>
  \<^verbatim>\<open>Client\<close> is an interface. The builder creates one implementation itself, the
  \<^verbatim>\<open>LocalhostClient\<close>, of which it sets the field \<^verbatim>\<open>env\<close>; every other
  implementation is a value of the type parameter \<open>'h\<close>.
\<close>

record LocalhostClient =
  l_env :: string

datatype 'h Client = OtherClient 'h | LocalhostClientPtr LocalhostClient

text \<open>
  An \<^verbatim>\<open>io.Reader\<close> held by a command task: the tar stream of an upload or the
  process's standard input. A nil reader is \<open>None\<close>.
\<close>

datatype 'r Reader = TarStreamReader 'r | OsStdin

record ('h, 'r) CommandTask =
  c_run :: string
  c_input :: "'r Reader option"
  c_clients :: "'h Client list"
  c_tty :: bool

record ('h, 't, 'v) TemplateTask =
  t_tmpl :: 't
  t_dst :: string
  t_vars :: "string \<rightharpoonup> 'v"
  t_clients :: "'h Client list"

text \<open>The interface \<^verbatim>\<open>Task\<close>, implemented by pointers to the two structs.\<close>

datatype ('h, 'r, 't, 'v) Task =
  PCommandTask "('h, 'r) CommandTask"
| PTemplateTask "('h, 't, 'v) TemplateTask"

fun Clients :: "('h, 'r, 't, 'v) Task \<Rightarrow> 'h Client list" where
  "Clients (PCommandTask t) = c_clients t"
| "Clients (PTemplateTask t) = t_clients t"

fun TTY :: "('h, 'r, 't, 'v) Task \<Rightarrow> bool" where
  "TTY (PCommandTask t) = c_tty t"
| "TTY (PTemplateTask t) = False"

fun isTemplateTask :: "('h, 'r, 't, 'v) Task \<Rightarrow> bool" where
  "isTemplateTask (PCommandTask t) = False"
| "isTemplateTask (PTemplateTask t) = True"

subsection \<open>The environment of the builder\<close>

record ('f, 'r, 't, 'v) World =
  Getwd :: "error + string"
  ResolveLocalPath :: "string \<Rightarrow> string \<Rightarrow> string \<Rightarrow> error + string"
  NewTarStreamReader :: "string \<Rightarrow> string \<Rightarrow> string \<Rightarrow> error + 'r"
  RemoteTarCommand :: "string \<Rightarrow> string"
  Open :: "string \<Rightarrow> error + 'f"
  ReadAll :: "'f \<Rightarrow> error + string"
  Parse :: "string \<Rightarrow> error + 't"
  Unmarshal :: "string \<Rightarrow> error + (string \<rightharpoonup> 'v)"
  Connect :: "LocalhostClient \<Rightarrow> string \<Rightarrow> LocalhostClient"

text \<open>
  \<open>Parse w data\<close> is \<^verbatim>\<open>template.New("tpl").Parse(data)\<close>; \<open>Unmarshal w vardata\<close> is
  \<^verbatim>\<open>yaml.Unmarshal(vardata, &vars)\<close> on the fresh empty map \<^verbatim>\<open>vars\<close>, returning the
  filled map; \<open>Connect w local address\<close> is the \<^verbatim>\<open>LocalhostClient\<close> after
  \<^verbatim>\<open>local.Connect(address)\<close>, whose error the builder drops.
\<close>

subsection \<open>Slices and the serial loop\<close>

text \<open>
  The slice expression \<^verbatim>\<open>clients[i:j]\<close>. Go panics unless \<open>i \<le> j \<le> cap\<close>; the
  only slice expressions of \<^verbatim>\<open>task.go\<close> are in the serial loops, where
  \<open>i < len(clients)\<close> is the loop guard and \<open>j\<close> is clamped to \<open>len(clients)\<close>.
\<close>

definition slice :: "'a list \<Rightarrow> nat \<Rightarrow> nat \<Rightarrow> 'a list" where
  "slice xs i j = take (j - i) (drop i xs)"

text \<open>
  \<^verbatim>\<open>
  for i := 0; i < len(clients); i += cmd.Serial {
      j := i + cmd.Serial
      if j > len(clients) { j = len(clients) }
      copy := task
      copy.clients = clients[i:j]
      tasks = append(tasks, &copy)
  }
  \<close>
  The loop appears four times, always under \<^verbatim>\<open>cmd.Serial > 0\<close>; that condition is
  part of the guard here, which makes the recursion total. \<open>mk\<close> is the copy of the
  task with its clients set. The length of a slice is far below the largest
  \<^verbatim>\<open>int\<close>, so \<open>i + cmd.Serial\<close> does not wrap while \<open>i < len(clients)\<close>.
\<close>

function serialLoop ::
  "('h Client list \<Rightarrow> ('h, 'r, 't, 'v) Task) \<Rightarrow> 'h Client list \<Rightarrow> int \<Rightarrow> nat \<Rightarrow>
   ('h, 'r, 't, 'v) Task list \<Rightarrow> ('h, 'r, 't, 'v) Task list" where
  "serialLoop mk clients serial i tasks =
     (if 0 < serial \<and> i < length clients then
        (let j = i + nat serial;
             j = (if j > length clients then length clients else j)
         in serialLoop mk clients serial (i + nat serial) (tasks @ [mk (slice clients i j)]))
      else tasks)"
  by pat_completeness auto
termination
  by (relation "measure (\<lambda>(mk, clients, serial, i, tasks). length clients - i)") auto

declare serialLoop.simps [simp del]

subsection \<open>The builder\<close>

text \<open>
  What a part of the builder does to the task list: it goes on with the list, it returns
  \<^verbatim>\<open>nil\<close> and an error, or it panics on \<^verbatim>\<open>clients[0]\<close> of an empty slice.
\<close>

datatype 'a step = Continue 'a | ReturnErr error | IndexPanic

datatype 'a outcome = Returned 'a | Panicked

text \<open>
  Lines 102 to 119, repeated at 198 to 215 and at 250 to 267: the client groups of a
  command task.
\<close>

definition appendCommandTask ::
  "Command \<Rightarrow> 'h Client list \<Rightarrow> ('h, 'r) CommandTask \<Rightarrow> ('h, 'r, 't, 'v) Task list \<Rightarrow>
   ('h, 'r, 't, 'v) Task list step" where
  "appendCommandTask cmd clients task tasks =
     (if Once cmd then
        (case clients of
           [] \<Rightarrow> IndexPanic
         | c0 # _ \<Rightarrow> Continue (tasks @ [PCommandTask (task\<lparr>c_clients := [c0]\<rparr>)]))
      else if Serial cmd > 0 then
        Continue (serialLoop (\<lambda>cs. PCommandTask (task\<lparr>c_clients := cs\<rparr>)) clients (Serial cmd) 0 tasks)
      else
        Continue (tasks @ [PCommandTask (task\<lparr>c_clients := clients\<rparr>)]))"

text \<open>Lines 160 to 174: the client groups of the template task; \<open>Once\<close> is not read.\<close>

definition appendTemplateTask ::
  "Command \<Rightarrow> 'h Client list \<Rightarrow> ('h, 't, 'v) TemplateTask \<Rightarrow> ('h, 'r, 't, 'v) Task list \<Rightarrow>
   ('h, 'r, 't, 'v) Task list" where
  "appendTemplateTask cmd clients task tasks =
     (if Serial cmd > 0 then
        serialLoop (\<lambda>cs. PTemplateTask (task\<lparr>t_clients := cs\<rparr>)) clients (Serial cmd) 0 tasks
      else
        tasks @ [PTemplateTask (task\<lparr>t_clients := clients\<rparr>)])"

text \<open>Lines 87 to 119: the body of the loop over \<^verbatim>\<open>cmd.Upload\<close>.\<close>

definition uploadEntry ::
  "('f, 'r, 't, 'v) World \<Rightarrow> Command \<Rightarrow> 'h Client list \<Rightarrow> string \<Rightarrow> string \<Rightarrow> Upload \<Rightarrow>
   ('h, 'r, 't, 'v) Task list \<Rightarrow> ('h, 'r, 't, 'v) Task list step" where
  "uploadEntry w cmd clients env cwd upload tasks =
     (case ResolveLocalPath w cwd (Upload.Src upload) env of
        Inl err \<Rightarrow> ReturnErr (Wrap err (''upload: '' @ Upload.Src upload))
      | Inr uploadFile \<Rightarrow>
          (case NewTarStreamReader w cwd uploadFile (Exc upload) of
             Inl err \<Rightarrow> ReturnErr (Wrap err (''upload: '' @ Upload.Src upload))
           | Inr uploadTarReader \<Rightarrow>
               appendCommandTask cmd clients
                 \<lparr>c_run = RemoteTarCommand w (Upload.Dst upload),
                  c_input = Some (TarStreamReader uploadTarReader),
                  c_clients = [],
                  c_tty = False\<rparr> tasks))"

text \<open>Lines 86 to 120: \<^verbatim>\<open>for _, upload := range cmd.Upload\<close>.\<close>

fun uploadLoop ::
  "('f, 'r, 't, 'v) World \<Rightarrow> Command \<Rightarrow> 'h Client list \<Rightarrow> string \<Rightarrow> string \<Rightarrow> Upload list \<Rightarrow>
   ('h, 'r, 't, 'v) Task list \<Rightarrow> ('h, 'r, 't, 'v) Task list step" where
  "uploadLoop w cmd clients env cwd [] tasks = Continue tasks"
| "uploadLoop w cmd clients env cwd (upload # uploads) tasks =
     (case uploadEntry w cmd clients env cwd upload tasks of
        Continue tasks' \<Rightarrow> uploadLoop w cmd clients env cwd uploads tasks'
      | ReturnErr err \<Rightarrow> ReturnErr err
      | IndexPanic \<Rightarrow> IndexPanic)"

text \<open>Lines 138 to 152: the variable mapping of the template.\<close>

definition readVars ::
  "('f, 'r, 't, 'v) World \<Rightarrow> Command \<Rightarrow> error + (string \<rightharpoonup> 'v)" where
  "readVars w cmd =
     (if Vars (Template cmd) \<noteq> [] then
        (case Open w (Vars (Template cmd)) of
           Inl err \<Rightarrow> Inl (Wrap err ''can't read variables'')
         | Inr varf \<Rightarrow>
             (case ReadAll w varf of
                Inl err \<Rightarrow> Inl (Wrap err ''can't read variables'')
              | Inr vardata \<Rightarrow>
                  (case Unmarshal w vardata of
                     Inl err \<Rightarrow> Inl (Wrap err ''can't parse variables'')
                   | Inr vars \<Rightarrow> Inr vars)))
      else Inr Map.empty)"

text \<open>Lines 122 to 175.\<close>

definition templateSection ::
  "('f, 'r, 't, 'v) World \<Rightarrow> Command \<Rightarrow> 'h Client list \<Rightarrow>
   ('h, 'r, 't, 'v) Task list \<Rightarrow> ('h, 'r, 't, 'v) Task list step" where
  "templateSection w cmd clients tasks =
     (if Template.Src (Template cmd) \<noteq> [] \<and> Template.Dst (Template cmd) \<noteq> [] then
        (case Open w (Template.Src (Template cmd)) of
           Inl err \<Rightarrow> ReturnErr (Wrap err ''can't open template'')
         | Inr f \<Rightarrow>
             (case ReadAll w f of
                Inl err \<Rightarrow> ReturnErr (Wrap err ''can't open template'')
              | Inr data \<Rightarrow>
                  (case Parse w data of
                     Inl err \<Rightarrow> ReturnErr (Wrap err ''can't parse template'')
                   | Inr tmpl \<Rightarrow>
                       (case readVars w cmd of
                          Inl err \<Rightarrow> ReturnErr err
                        | Inr vars \<Rightarrow>
                            Continue (appendTemplateTask cmd clients
                              \<lparr>t_tmpl = tmpl,
                               t_dst = Template.Dst (Template cmd),
                               t_vars = vars,
                               t_clients = []\<rparr> tasks)))))
      else Continue tasks)"

text \<open>
  Lines 192 to 197, repeated at 229 to 234 and at 244 to 249: the trace prefix and the
  standard input of a script, local or remote command.
\<close>

definition debugStdin ::
  "Stackup \<Rightarrow> Command \<Rightarrow> ('h, 'r) CommandTask \<Rightarrow> ('h, 'r) CommandTask" where
  "debugStdin sup' cmd task =
     (let task = (if debug sup' then task\<lparr>c_run := ''set -x;'' @ c_run task\<rparr> else task);
          task = (if Stdin cmd then task\<lparr>c_input := Some OsStdin\<rparr> else task)
      in task)"

text \<open>Lines 178 to 216.\<close>

definition scriptSection ::
  "Stackup \<Rightarrow> ('f, 'r, 't, 'v) World \<Rightarrow> Command \<Rightarrow> 'h Client list \<Rightarrow>
   ('h, 'r, 't, 'v) Task list \<Rightarrow> ('h, 'r, 't, 'v) Task list step" where
  "scriptSection sup' w cmd clients tasks =
     (if Script cmd \<noteq> [] then
        (case Open w (Script cmd) of
           Inl err \<Rightarrow> ReturnErr (Wrap err ''can't open script'')
         | Inr f \<Rightarrow>
             (case ReadAll w f of
                Inl err \<Rightarrow> ReturnErr (Wrap err ''can't read script'')
              | Inr data \<Rightarrow>
                  appendCommandTask cmd clients
                    (debugStdin sup' cmd
                       \<lparr>c_run = data, c_input = None, c_clients = [], c_tty = True\<rparr>) tasks))
      else Continue tasks)"

text \<open>
  Lines 219 to 236. The binding appended to the environment prefix is
  \<^verbatim>\<open>export SUP_HOST="localhost";\<close> (the character \<open>0x22\<close> is the double quote).
\<close>

definition supHostLocalhost :: string where
  "supHostLocalhost = ''export SUP_HOST='' @ [CHR 0x22] @ ''localhost'' @ [CHR 0x22] @ '';''"

definition localSection ::
  "Stackup \<Rightarrow> ('f, 'r, 't, 'v) World \<Rightarrow> Command \<Rightarrow> string \<Rightarrow>
   ('h, 'r, 't, 'v) Task list \<Rightarrow> ('h, 'r, 't, 'v) Task list step" where
  "localSection sup' w cmd env tasks =
     (if Local cmd \<noteq> [] then
        (let local = \<lparr>l_env = env @ supHostLocalhost\<rparr>;
             local = Connect w local ''localhost'';
             task = \<lparr>c_run = Local cmd, c_input = None,
                     c_clients = [LocalhostClientPtr local], c_tty = True\<rparr>
         in Continue (tasks @ [PCommandTask (debugStdin sup' cmd task)]))
      else Continue tasks)"

text \<open>Lines 239 to 268.\<close>

definition runSection ::
  "Stackup \<Rightarrow> Command \<Rightarrow> 'h Client list \<Rightarrow>
   ('h, 'r, 't, 'v) Task list \<Rightarrow> ('h, 'r, 't, 'v) Task list step" where
  "runSection sup' cmd clients tasks =
     (if Run cmd \<noteq> [] then
        appendCommandTask cmd clients
          (debugStdin sup' cmd
             \<lparr>c_run = Run cmd, c_input = None, c_clients = [], c_tty = True\<rparr>) tasks
      else Continue tasks)"

text \<open>
  Lines 77 to 271. The result is the pair the Go function returns, the nil slice being
  the empty list and the nil error \<open>None\<close>, or a panic.
\<close>

definition createTasks ::
  "Stackup \<Rightarrow> ('f, 'r, 't, 'v) World \<Rightarrow> Command \<Rightarrow> 'h Client list \<Rightarrow> string \<Rightarrow>
   (('h, 'r, 't, 'v) Task list \<times> error option) outcome" where
  "createTasks sup' w cmd clients env =
     (case Getwd w of
        Inl err \<Rightarrow> Returned ([], Some (Wrap err ''resolving CWD failed''))
      | Inr cwd \<Rightarrow>
          (case uploadLoop w cmd clients env cwd (Upload cmd) [] of
             ReturnErr err \<Rightarrow> Returned ([], Some err)
           | IndexPanic \<Rightarrow> Panicked
           | Continue tasks \<Rightarrow>
               (case templateSection w cmd clients tasks of
                  ReturnErr err \<Rightarrow> Returned ([], Some err)
                | IndexPanic \<Rightarrow> Panicked
                | Continue tasks \<Rightarrow>
                    (case scriptSection sup' w cmd clients tasks of
                       ReturnErr err \<Rightarrow> Returned ([], Some err)
                     | IndexPanic \<Rightarrow> Panicked
                     | Continue tasks \<Rightarrow>
                         (case localSection sup' w cmd env tasks of
                            ReturnErr err \<Rightarrow> Returned ([], Some err)
                          | IndexPanic \<Rightarrow> Panicked
                          | Continue tasks \<Rightarrow>
                              (case runSection sup' cmd clients tasks of
                                 ReturnErr err \<Rightarrow> Returned ([], Some err)
                               | IndexPanic \<Rightarrow> Panicked
                               | Continue tasks \<Rightarrow> Returned (tasks, None)))))))"

subsection \<open>TemplateTask.InputForClient\<close>



subsection \<open>The partitioning policy in the words of the specification\<close>

text \<open>
  Consecutive chunks of size \<open>n\<close>, the last one possibly shorter.
\<close>

function chunks :: "nat \<Rightarrow> 'a list \<Rightarrow> 'a list list" where
  "chunks n xs = (if n = 0 \<or> xs = [] then [] else take n xs # chunks n (drop n xs))"
  by pat_completeness auto
termination
  by (relation "measure (\<lambda>(n, xs). length xs)") auto

declare chunks.simps [simp del]

text \<open>
  If \<open>Once\<close>: the first client only; else if \<open>Serial = N > 0\<close>: consecutive chunks of
  size \<open>N\<close>; else the entire list. \<open>take 1\<close> is the first client of a list that has
  one. The policy of the template task does not read \<open>Once\<close>.
\<close>

definition clientPartition :: "Command \<Rightarrow> 'a list \<Rightarrow> 'a list list" where
  "clientPartition cmd clients =
     (if Once cmd then [take 1 clients]
      else if Serial cmd > 0 then chunks (nat (Serial cmd)) clients
      else [clients])"

definition templatePartition :: "Command \<Rightarrow> 'a list \<Rightarrow> 'a list list" where
  "templatePartition cmd clients =
     (if Serial cmd > 0 then chunks (nat (Serial cmd)) clients else [clients])"

text \<open>The number of chunks, \<open>ceil(L/N)\<close>, in natural numbers.\<close>

definition ceilDiv :: "nat \<Rightarrow> nat \<Rightarrow> nat" where
  "ceilDiv l n = (l + n - 1) div n"

text \<open>
  A group of tasks partitions the client list serially: \<open>ceil(L/N)\<close> tasks, each with at
  most \<open>N\<close> clients, the client sets in task order give the list back, and no client of
  a list without repetition is in two tasks.
\<close>

definition serialPartition :: "nat \<Rightarrow> 'h Client list \<Rightarrow> ('h, 'r, 't, 'v) Task list \<Rightarrow> bool" where
  "serialPartition n clients g =
     (length g = ceilDiv (length clients) n \<and>
      (\<forall>t \<in> set g. length (Clients t) \<le> n) \<and>
      concat (map Clients g) = clients \<and>
      (distinct clients \<longrightarrow>
         (\<forall>i < length g. \<forall>j < length g. i \<noteq> j \<longrightarrow>
            set (Clients (g ! i)) \<inter> set (Clients (g ! j)) = {})))"

subsection \<open>The parts of a built task list\<close>

text \<open>
  The task groups of a successful build: \<open>ups\<close> holds, for each entry of
  \<^verbatim>\<open>cmd.Upload\<close> in order, the tasks the loop body appends for it; \<open>tp\<close>, \<open>sc\<close>, \<open>lo\<close>
  and \<open>rn\<close> are the tasks the template, script, local and remote parts append.
\<close>

definition sectionTasks ::
  "Stackup \<Rightarrow> ('f, 'r, 't, 'v) World \<Rightarrow> Command \<Rightarrow> 'h Client list \<Rightarrow> string \<Rightarrow>
   ('h, 'r, 't, 'v) Task list list \<Rightarrow> ('h, 'r, 't, 'v) Task list \<Rightarrow> ('h, 'r, 't, 'v) Task list \<Rightarrow>
   ('h, 'r, 't, 'v) Task list \<Rightarrow> ('h, 'r, 't, 'v) Task list \<Rightarrow> bool" where
  "sectionTasks sup' w cmd clients env ups tp sc lo rn =
     (case Getwd w of
        Inl err \<Rightarrow> False
      | Inr cwd \<Rightarrow>
          list_all2 (\<lambda>upload g. uploadEntry w cmd clients env cwd upload [] = Continue g)
            (Upload cmd) ups \<and>
          templateSection w cmd clients [] = Continue tp \<and>
          scriptSection sup' w cmd clients [] = Continue sc \<and>
          localSection sup' w cmd env [] = Continue lo \<and>
          runSection sup' cmd clients [] = Continue rn)"

text \<open>A step with the tasks it appends put behind an earlier list.\<close>

fun onto :: "'a list \<Rightarrow> 'a list step \<Rightarrow> 'a list step" where
  "onto tasks (Continue new) = Continue (tasks @ new)"
| "onto tasks (ReturnErr err) = ReturnErr err"
| "onto tasks IndexPanic = IndexPanic"

subsection \<open>Failing construction steps\<close>

text \<open>
  The calls of the builder that can return an error, as conditions on the environment:
  path resolution and the tar stream of an upload entry, opening and reading a file,
  parsing the template, reading and decoding the variable file, reading the script.
\<close>

definition uploadFails :: "('f, 'r, 't, 'v) World \<Rightarrow> string \<Rightarrow> string \<Rightarrow> Upload \<Rightarrow> bool" where
  "uploadFails w cwd env upload =
     (case ResolveLocalPath w cwd (Upload.Src upload) env of
        Inl err \<Rightarrow> True
      | Inr uploadFile \<Rightarrow> isl (NewTarStreamReader w cwd uploadFile (Exc upload)))"

definition readFails :: "('f, 'r, 't, 'v) World \<Rightarrow> string \<Rightarrow> bool" where
  "readFails w path = (case Open w path of Inl err \<Rightarrow> True | Inr f \<Rightarrow> isl (ReadAll w f))"

definition dataOf :: "('f, 'r, 't, 'v) World \<Rightarrow> string \<Rightarrow> string" where
  "dataOf w path =
     (case Open w path of
        Inl err \<Rightarrow> []
      | Inr f \<Rightarrow> (case ReadAll w f of Inl err \<Rightarrow> [] | Inr data \<Rightarrow> data))"

definition templatePopulated :: "Command \<Rightarrow> bool" where
  "templatePopulated cmd =
     (Template.Src (Template cmd) \<noteq> [] \<and> Template.Dst (Template cmd) \<noteq> [])"

definition varsFail :: "('f, 'r, 't, 'v) World \<Rightarrow> Command \<Rightarrow> bool" where
  "varsFail w cmd =
     (Vars (Template cmd) \<noteq> [] \<and>
      (readFails w (Vars (Template cmd)) \<or> isl (Unmarshal w (dataOf w (Vars (Template cmd))))))"

definition templateFails :: "('f, 'r, 't, 'v) World \<Rightarrow> Command \<Rightarrow> bool" where
  "templateFails w cmd =
     (templatePopulated cmd \<and>
      (readFails w (Template.Src (Template cmd)) \<or>
       isl (Parse w (dataOf w (Template.Src (Template cmd)))) \<or>
       varsFail w cmd))"

definition scriptFails :: "('f, 'r, 't, 'v) World \<Rightarrow> Command \<Rightarrow> bool" where
  "scriptFails w cmd = (Script cmd \<noteq> [] \<and> readFails w (Script cmd))"

definition stepFails :: "('f, 'r, 't, 'v) World \<Rightarrow> Command \<Rightarrow> string \<Rightarrow> bool" where
  "stepFails w cmd env =
     (case Getwd w of
        Inl err \<Rightarrow> True
      | Inr cwd \<Rightarrow>
          (\<exists>upload \<in> set (Upload cmd). uploadFails w cwd env upload) \<or>
          templateFails w cmd \<or> scriptFails w cmd)"

text \<open>The commands whose build reads \<^verbatim>\<open>clients[0]\<close>.\<close>

definition indexesFirst :: "Command \<Rightarrow> bool" where
  "indexesFirst cmd = (Once cmd \<and> (Upload cmd \<noteq> [] \<or> Script cmd \<noteq> [] \<or> Run cmd \<noteq> []))"

subsection \<open>An example environment\<close>

text \<open>
  An environment in which every call succeeds, a builder without the debug flag, a
  command specification with nothing populated, and five clients. The examples below
  change single fields of them.
\<close>

definition exampleWorld :: "(string, string, string, string) World" where
  "exampleWorld =
     \<lparr>Getwd = Inr ''/home/deploy'',
      ResolveLocalPath = (\<lambda>cwd src env. Inr (cwd @ ''/'' @ src)),
      NewTarStreamReader = (\<lambda>cwd file exc. Inr file),
      RemoteTarCommand = (\<lambda>dst. ''tar -C '' @ dst @ '' -xzf -''),
      Open = (\<lambda>path. Inr path),
      ReadAll = (\<lambda>f. Inr (''contents of '' @ f)),
      Parse = (\<lambda>data. Inr data),
      Unmarshal = (\<lambda>vardata. Inr Map.empty),
      Connect = (\<lambda>local address. local)\<rparr>"

definition exampleStackup :: Stackup where
  "exampleStackup = \<lparr>debug = False\<rparr>"

definition emptyCommand :: Command where
  "emptyCommand =
     \<lparr>Upload = [],
      Template = \<lparr>Template.Src = [], Template.Dst = [], Vars = []\<rparr>,
      Script = [], Local = [], Run = [], Once = False, Serial = 0, Stdin = False\<rparr>"

definition exampleUpload :: Upload where
  "exampleUpload = \<lparr>Upload.Src = ''dist'', Upload.Dst = ''/srv/app'', Exc = []\<rparr>"

definition exampleTemplate :: Template where
  "exampleTemplate =
     \<lparr>Template.Src = ''example/test.tpl'', Template.Dst = ''/tmp/test'',
      Vars = ''example/test.yml''\<rparr>"

definition fiveClients :: "nat Client list" where
  "fiveClients = [OtherClient 0, OtherClient 1, OtherClient 2, OtherClient 3, OtherClient 4]"

definition serialRun :: Command where
  "serialRun = emptyCommand\<lparr>Run := ''uptime'', Serial := 2\<rparr>"

definition twoUploads :: Command where
  "twoUploads =
     emptyCommand\<lparr>Upload := [exampleUpload, exampleUpload\<lparr>Upload.Src := ''conf''\<rparr>],
       Serial := 1\<rparr>"

definition twoClients :: "nat Client list" where
  "twoClients = [OtherClient 0, OtherClient 1]"

definition onceAll :: Command where
  "onceAll =
     emptyCommand\<lparr>Upload := [exampleUpload], Script := ''deploy.sh'', Run := ''uptime'',
       Once := True, Serial := 2\<rparr>"

definition allFive :: Command where
  "allFive =
     emptyCommand\<lparr>Upload := [exampleUpload], Template := exampleTemplate,
       Script := ''deploy.sh'', Local := ''echo hi'', Run := ''uptime''\<rparr>"

text \<open>Environments in which the template does not parse, or the variable file does not decode.\<close>

definition parseFailsWorld :: "(string, string, string, string) World" where
  "parseFailsWorld = exampleWorld\<lparr>Parse := (\<lambda>data. Inl ''template: tpl:1: unexpected EOF'')\<rparr>"

definition decodeFailsWorld :: "(string, string, string, string) World" where
  "decodeFailsWorld =
     exampleWorld\<lparr>Unmarshal := (\<lambda>vardata. Inl ''yaml: line 1: did not find expected key'')\<rparr>"




section \<open>Lemmas\<close>

subsection \<open>Chunks\<close>

lemma chunks_Nil: "chunks n [] = []"
  by (subst chunks.simps) simp

lemma chunks_Cons:
  "0 < n \<Longrightarrow> xs \<noteq> [] \<Longrightarrow> chunks n xs = take n xs # chunks n (drop n xs)"
  by (subst chunks.simps) simp

lemma chunks_mem_nonempty: "c \<in> set (chunks n xs) \<Longrightarrow> 0 < n \<and> xs \<noteq> []"
  by (subst (asm) chunks.simps) (simp split: if_splits)

lemma concat_chunks: "0 < n \<Longrightarrow> concat (chunks n xs) = xs"
proof (induction n xs rule: chunks.induct)
  case (1 n xs)
  show ?case
  proof (cases "xs = []")
    case True
    then show ?thesis by (simp add: chunks_Nil)
  next
    case False
    have ih: "concat (chunks n (drop n xs)) = drop n xs"
      using "1.IH" False "1.prems" by simp
    have "concat (chunks n xs) = take n xs @ concat (chunks n (drop n xs))"
      by (simp only: chunks_Cons [OF "1.prems" False] concat.simps)
    then show ?thesis by (simp only: ih append_take_drop_id)
  qed
qed

lemma div_add_self_Suc: "0 < n \<Longrightarrow> (a + n) div n = Suc (a div n)" for a n :: nat
  by (simp add: div_add_self2)

lemma ceilDiv_step:
  assumes "0 < n" "0 < l"
  shows "ceilDiv l n = Suc (ceilDiv (l - n) n)"
proof (cases "n \<le> l")
  case True
  have "l + n - 1 = (l - n + n - 1) + n" using True assms by arith
  then have "(l + n - 1) div n = ((l - n + n - 1) + n) div n" by (rule arg_cong)
  also have "\<dots> = Suc ((l - n + n - 1) div n)" using assms(1) by (rule div_add_self_Suc)
  finally show ?thesis by (simp only: ceilDiv_def)
next
  case False
  have "l + n - 1 = (l - 1) + n" using assms by arith
  then have "(l + n - 1) div n = ((l - 1) + n) div n" by (rule arg_cong)
  also have "\<dots> = Suc ((l - 1) div n)" using assms(1) by (rule div_add_self_Suc)
  also have "(l - 1) div n = 0" using False assms by simp
  finally have 1: "ceilDiv l n = Suc 0" by (simp only: ceilDiv_def)
  have "l - n = 0" using False by simp
  then have "ceilDiv (l - n) n = (n - 1) div n" by (simp only: ceilDiv_def add_0)
  also have "\<dots> = 0" using assms by simp
  finally show ?thesis using 1 by simp
qed

text \<open>\<open>ceilDiv l n\<close> is the least number of chunks of size \<open>n\<close> that hold \<open>l\<close> clients.\<close>

lemma ceilDiv_ceiling:
  assumes "0 < n"
  shows "l \<le> ceilDiv l n * n \<and> ceilDiv l n * n < l + n"
proof -
  let ?q = "(l + n - 1) div n"
  have 1: "?q * n + (l + n - 1) mod n = l + n - 1" by simp
  have 2: "(l + n - 1) mod n < n" using assms by simp
  from 1 2 assms have "l \<le> ?q * n \<and> ?q * n < l + n" by arith
  then show ?thesis by (simp only: ceilDiv_def)
qed

lemma length_chunks: "0 < n \<Longrightarrow> length (chunks n xs) = ceilDiv (length xs) n"
proof (induction n xs rule: chunks.induct)
  case (1 n xs)
  show ?case
  proof (cases "xs = []")
    case True
    have "ceilDiv 0 n = 0" using "1.prems" by (simp add: ceilDiv_def)
    then show ?thesis using True by (simp add: chunks_Nil)
  next
    case False
    have ih: "length (chunks n (drop n xs)) = ceilDiv (length xs - n) n"
      using "1.IH" False "1.prems" by simp
    have "length (chunks n xs) = Suc (length (chunks n (drop n xs)))"
      by (simp only: chunks_Cons [OF "1.prems" False] length_Cons)
    also have "\<dots> = Suc (ceilDiv (length xs - n) n)" by (simp only: ih)
    also have "\<dots> = ceilDiv (length xs) n"
      using ceilDiv_step [of n "length xs"] "1.prems" False by simp
    finally show ?thesis .
  qed
qed

lemma chunks_slice:
  "c \<in> set (chunks n xs) \<Longrightarrow> \<exists>i. i < length xs \<and> c = take n (drop i xs)"
proof (induction n xs rule: chunks.induct)
  case (1 n xs)
  from "1.prems" have ne: "0 < n" "xs \<noteq> []"
    using chunks_mem_nonempty by blast+
  from "1.prems" have "c = take n xs \<or> c \<in> set (chunks n (drop n xs))"
    by (simp only: chunks_Cons [OF ne] set_simps insert_iff)
  then show ?case
  proof
    assume "c = take n xs"
    then have "0 < length xs \<and> c = take n (drop 0 xs)" using ne by simp
    then show ?thesis by blast
  next
    assume "c \<in> set (chunks n (drop n xs))"
    then obtain i where i: "i < length (drop n xs)" "c = take n (drop i (drop n xs))"
      using "1.IH" ne by auto
    then have "i + n < length xs \<and> c = take n (drop (i + n) xs)" by (simp add: add.commute)
    then show ?thesis by blast
  qed
qed

lemma chunks_bounds:
  assumes "c \<in> set (chunks n xs)"
  shows "c \<noteq> []" and "length c \<le> n"
proof -
  from assms have n: "0 < n" using chunks_mem_nonempty by blast
  from chunks_slice [OF assms] obtain i where "i < length xs" "c = take n (drop i xs)" by blast
  then show "c \<noteq> []" and "length c \<le> n" using n by auto
qed

lemma chunks_is_slice:
  assumes "c \<in> set (chunks n xs)"
  shows "\<exists>i j. i < j \<and> j \<le> length xs \<and> c = slice xs i j"
proof -
  from assms have n: "0 < n" using chunks_mem_nonempty by blast
  from chunks_slice [OF assms] obtain i where i: "i < length xs" "c = take n (drop i xs)" by blast
  have "c = slice xs i (min (i + n) (length xs))"
    using i by (simp add: slice_def min_def)
  moreover have "i < min (i + n) (length xs)" using i n by simp
  moreover have "min (i + n) (length xs) \<le> length xs" by simp
  ultimately show ?thesis by blast
qed

lemma chunks_disjoint:
  assumes "0 < n" "distinct xs" "i < length (chunks n xs)" "j < length (chunks n xs)" "i \<noteq> j"
  shows "set (chunks n xs ! i) \<inter> set (chunks n xs ! j) = {}"
proof -
  have d: "distinct (concat (chunks n xs))" using assms by (simp add: concat_chunks)
  have "[] \<notin> set (chunks n xs)" using chunks_bounds(1) by blast
  then have "removeAll [] (chunks n xs) = chunks n xs" by simp
  then have dc: "distinct (chunks n xs)" using d by (simp add: distinct_concat_iff)
  then have "chunks n xs ! i \<noteq> chunks n xs ! j"
    using assms by (simp add: nth_eq_iff_index_eq)
  then show ?thesis using d assms by (simp add: distinct_concat_iff)
qed

subsection \<open>The serial loop\<close>

lemma serialLoop_chunks:
  "0 < serial \<Longrightarrow>
   serialLoop mk clients serial i tasks = tasks @ map mk (chunks (nat serial) (drop i clients))"
proof (induction mk clients serial i tasks rule: serialLoop.induct)
  case (1 mk clients serial i tasks)
  show ?case
  proof (cases "i < length clients")
    case True
    have n: "0 < nat serial" using "1.prems" by simp
    have ne: "drop i clients \<noteq> []" using True by simp
    have c: "chunks (nat serial) (drop i clients) =
             take (nat serial) (drop i clients) # chunks (nat serial) (drop (i + nat serial) clients)"
      by (simp only: chunks_Cons [OF n ne] drop_drop add.commute)
    have s: "slice clients i (if length clients < i + nat serial then length clients else i + nat serial)
             = take (nat serial) (drop i clients)"
      using True by (simp add: slice_def)
    have "serialLoop mk clients serial i tasks =
          serialLoop mk clients serial (i + nat serial) (tasks @ [mk (take (nat serial) (drop i clients))])"
      using True "1.prems" by (subst serialLoop.simps) (simp add: Let_def s)
    also have "\<dots> = (tasks @ [mk (take (nat serial) (drop i clients))]) @
                 map mk (chunks (nat serial) (drop (i + nat serial) clients))"
      using True "1.prems" "1.IH" [OF _ refl refl] by (simp add: s)
    finally show ?thesis by (simp only: c list.map append_assoc append.simps)
  next
    case False
    then show ?thesis by (subst serialLoop.simps) (simp add: chunks_Nil)
  qed
qed

lemma appendCommandTask_panic:
  "Once cmd \<Longrightarrow> appendCommandTask cmd [] task tasks = IndexPanic"
  by (simp add: appendCommandTask_def)

lemma appendCommandTask_eq:
  "\<not> (Once cmd \<and> clients = []) \<Longrightarrow>
   appendCommandTask cmd clients task tasks =
     Continue (tasks @ map (\<lambda>cs. PCommandTask (task\<lparr>c_clients := cs\<rparr>)) (clientPartition cmd clients))"
  by (cases clients) (simp_all add: appendCommandTask_def clientPartition_def serialLoop_chunks)

lemma appendTemplateTask_eq:
  "appendTemplateTask cmd clients task tasks =
     tasks @ map (\<lambda>cs. PTemplateTask (task\<lparr>t_clients := cs\<rparr>)) (templatePartition cmd clients)"
  by (simp add: appendTemplateTask_def templatePartition_def serialLoop_chunks)

lemma appendCommandTask_onto:
  "appendCommandTask cmd clients task tasks = onto tasks (appendCommandTask cmd clients task [])"
  by (cases "Once cmd \<and> clients = []") (auto simp: appendCommandTask_panic appendCommandTask_eq)

lemma uploadEntry_onto:
  "uploadEntry w cmd clients env cwd upload tasks = onto tasks (uploadEntry w cmd clients env cwd upload [])"
  unfolding uploadEntry_def
  by (auto split: sum.splits simp: appendCommandTask_onto [of _ _ _ tasks])

lemma onto_onto: "onto xs (onto ys st) = onto (xs @ ys) st"
  by (cases st) simp_all

lemma onto_Nil: "onto [] st = st"
  by (cases st) simp_all

subsection \<open>The parts of the builder append to the task list\<close>

lemma uploadLoop_onto:
  "uploadLoop w cmd clients env cwd uploads tasks = onto tasks (uploadLoop w cmd clients env cwd uploads [])"
proof (induction uploads arbitrary: tasks)
  case Nil
  show ?case by simp
next
  case (Cons upload uploads)
  show ?case
  proof (cases "uploadEntry w cmd clients env cwd upload []")
    case (Continue g)
    then have "uploadEntry w cmd clients env cwd upload tasks = Continue (tasks @ g)"
      by (simp add: uploadEntry_onto [of _ _ _ _ _ _ tasks])
    then show ?thesis
      using Continue Cons.IH [of "tasks @ g"] Cons.IH [of g] by (simp add: onto_onto)
  next
    case (ReturnErr e)
    then show ?thesis by (simp add: uploadEntry_onto [of _ _ _ _ _ _ tasks])
  next
    case IndexPanic
    then show ?thesis by (simp add: uploadEntry_onto [of _ _ _ _ _ _ tasks])
  qed
qed

lemma templateSection_onto:
  "templateSection w cmd clients tasks = onto tasks (templateSection w cmd clients [])"
  unfolding templateSection_def
  by (auto split: sum.splits simp: appendTemplateTask_eq)

lemma scriptSection_onto:
  "scriptSection sup' w cmd clients tasks = onto tasks (scriptSection sup' w cmd clients [])"
  unfolding scriptSection_def
  by (auto split: sum.splits simp: appendCommandTask_onto [of _ _ _ tasks])

lemma localSection_onto:
  "localSection sup' w cmd env tasks = onto tasks (localSection sup' w cmd env [])"
  unfolding localSection_def by (simp add: Let_def)

lemma runSection_onto:
  "runSection sup' cmd clients tasks = onto tasks (runSection sup' cmd clients [])"
  unfolding runSection_def
  by (auto simp: appendCommandTask_onto [of _ _ _ tasks])

lemma uploadLoop_Continue:
  "uploadLoop w cmd clients env cwd uploads [] = Continue ts \<longleftrightarrow>
   (\<exists>ups. list_all2 (\<lambda>upload g. uploadEntry w cmd clients env cwd upload [] = Continue g) uploads ups \<and>
          ts = concat ups)"
proof (induction uploads arbitrary: ts)
  case Nil
  show ?case by auto
next
  case (Cons upload uploads)
  let ?P = "\<lambda>upload g. uploadEntry w cmd clients env cwd upload [] = Continue g"
  show ?case
  proof (cases "uploadEntry w cmd clients env cwd upload []")
    case (Continue g)
    have step: "uploadLoop w cmd clients env cwd (upload # uploads) [] =
          onto g (uploadLoop w cmd clients env cwd uploads [])"
      using Continue uploadLoop_onto [of w cmd clients env cwd uploads g] by simp
    show ?thesis
    proof
      assume l: "uploadLoop w cmd clients env cwd (upload # uploads) [] = Continue ts"
      then obtain r where r: "uploadLoop w cmd clients env cwd uploads [] = Continue r" "ts = g @ r"
        using step by (cases "uploadLoop w cmd clients env cwd uploads []") auto
      then obtain ups where "list_all2 ?P uploads ups" "r = concat ups"
        using Cons.IH by blast
      then have "list_all2 ?P (upload # uploads) (g # ups) \<and> ts = concat (g # ups)"
        using Continue r by simp
      then show "\<exists>ups. list_all2 ?P (upload # uploads) ups \<and> ts = concat ups" by blast
    next
      assume "\<exists>ups. list_all2 ?P (upload # uploads) ups \<and> ts = concat ups"
      then obtain ups' where u: "list_all2 ?P (upload # uploads) ups'" "ts = concat ups'" by blast
      then obtain g' ups where g: "ups' = g' # ups" "?P upload g'" "list_all2 ?P uploads ups"
        by (auto simp: list_all2_Cons1)
      then have "g' = g" using Continue by simp
      moreover have "uploadLoop w cmd clients env cwd uploads [] = Continue (concat ups)"
        using Cons.IH g by blast
      ultimately show "uploadLoop w cmd clients env cwd (upload # uploads) [] = Continue ts"
        using step u g by simp
    qed
  next
    case (ReturnErr e)
    then show ?thesis by (auto simp: list_all2_Cons1)
  next
    case IndexPanic
    then show ?thesis by (auto simp: list_all2_Cons1)
  qed
qed

lemma case_onto_Returned:
  "(case onto xs st of Continue t \<Rightarrow> f t | ReturnErr e \<Rightarrow> Returned ([], Some e) | IndexPanic \<Rightarrow> Panicked)
     = Returned (ts, None) \<longleftrightarrow>
   (\<exists>new. st = Continue new \<and> f (xs @ new) = Returned (ts, None))"
  by (cases st) auto

lemma createTasks_Returned:
  "createTasks sup' w cmd clients env = Returned (ts, None) \<longleftrightarrow>
   (\<exists>ups tp sc lo rn. sectionTasks sup' w cmd clients env ups tp sc lo rn \<and>
      ts = concat ups @ tp @ sc @ lo @ rn)"
proof (cases "Getwd w")
  case (Inl e)
  then show ?thesis by (simp add: createTasks_def sectionTasks_def)
next
  case (Inr cwd)
  let ?U = "uploadLoop w cmd clients env cwd (Upload cmd) []"
  let ?T = "templateSection w cmd clients []"
  let ?S = "scriptSection sup' w cmd clients []"
  let ?L = "localSection sup' w cmd env []"
  let ?R = "runSection sup' cmd clients []"
  have "createTasks sup' w cmd clients env = Returned (ts, None) \<longleftrightarrow>
        (\<exists>u. ?U = Continue u \<and> (\<exists>tp. ?T = Continue tp \<and> (\<exists>sc. ?S = Continue sc \<and>
           (\<exists>lo. ?L = Continue lo \<and> (\<exists>rn. ?R = Continue rn \<and> ts = (((u @ tp) @ sc) @ lo) @ rn)))))"
    unfolding createTasks_def Inr
    apply (simp only: sum.case)
    apply (subst onto_Nil [of ?U, symmetric])
    apply (subst templateSection_onto)
    apply (subst scriptSection_onto)
    apply (subst localSection_onto)
    apply (subst runSection_onto)
    apply (simp only: case_onto_Returned append_Nil)
    apply (simp only: outcome.inject prod.inject simp_thms)
    apply blast
    done
  then show ?thesis
    unfolding sectionTasks_def Inr
    by (simp only: sum.case uploadLoop_Continue append_assoc) blast
qed

subsection \<open>What each part appends\<close>

lemma appendCommandTask_Continue:
  assumes "appendCommandTask cmd clients task [] = Continue g"
  shows "\<not> (Once cmd \<and> clients = [])"
    and "g = map (\<lambda>cs. PCommandTask (task\<lparr>c_clients := cs\<rparr>)) (clientPartition cmd clients)"
proof -
  show 1: "\<not> (Once cmd \<and> clients = [])"
    using assms by (auto simp: appendCommandTask_panic)
  show "g = map (\<lambda>cs. PCommandTask (task\<lparr>c_clients := cs\<rparr>)) (clientPartition cmd clients)"
    using assms by (simp add: appendCommandTask_eq [OF 1])
qed

lemma map_Clients_command:
  "map Clients (map (\<lambda>cs. PCommandTask (task\<lparr>c_clients := cs\<rparr>)) css) = css"
  by (induction css) simp_all

lemma map_Clients_template:
  "map Clients (map (\<lambda>cs. PTemplateTask (task\<lparr>t_clients := cs\<rparr>)) css) = css"
  by (induction css) simp_all

lemma uploadEntry_Continue:
  assumes "uploadEntry w cmd clients env cwd upload [] = Continue g"
  shows "\<not> (Once cmd \<and> clients = [])"
    and "map Clients g = clientPartition cmd clients"
    and "\<forall>t \<in> set g. \<not> isTemplateTask t \<and> \<not> TTY t"
    and "\<not> uploadFails w cwd env upload"
proof -
  from assms obtain task where a: "appendCommandTask cmd clients task [] = Continue g"
    and t: "\<not> c_tty task"
    and f: "\<not> uploadFails w cwd env upload"
    unfolding uploadEntry_def uploadFails_def by (auto split: sum.splits)
  note c = appendCommandTask_Continue [OF a]
  show "\<not> (Once cmd \<and> clients = [])" by (rule c(1))
  show "map Clients g = clientPartition cmd clients"
    by (simp only: c(2) map_Clients_command)
  show "\<forall>t \<in> set g. \<not> isTemplateTask t \<and> \<not> TTY t"
    using t by (auto simp: c(2))
  show "\<not> uploadFails w cwd env upload" by (rule f)
qed

lemma templateSection_empty:
  "\<not> templatePopulated cmd \<Longrightarrow> templateSection w cmd clients tasks = Continue tasks"
  by (auto simp: templateSection_def templatePopulated_def)

lemma templateSection_Continue:
  assumes "templateSection w cmd clients [] = Continue tp" "templatePopulated cmd"
  shows "map Clients tp = templatePartition cmd clients"
    and "\<forall>t \<in> set tp. isTemplateTask t"
    and "\<not> templateFails w cmd"
proof -
  from assms obtain tmpl vars where
    tp: "tp = map (\<lambda>cs. PTemplateTask \<lparr>t_tmpl = tmpl, t_dst = Template.Dst (Template cmd),
                   t_vars = vars, t_clients = cs\<rparr>) (templatePartition cmd clients)"
    unfolding templateSection_def templatePopulated_def
    by (auto split: sum.splits simp: appendTemplateTask_eq)
  have m: "\<And>css. map Clients (map (\<lambda>cs. PTemplateTask \<lparr>t_tmpl = tmpl,
             t_dst = Template.Dst (Template cmd), t_vars = vars, t_clients = cs\<rparr>) css) = css"
    by (simp add: comp_def)
  show "map Clients tp = templatePartition cmd clients"
    by (simp only: tp m)
  show "\<forall>t \<in> set tp. isTemplateTask t"
    by (auto simp: tp)
  show "\<not> templateFails w cmd"
    using assms
    unfolding templateSection_def templatePopulated_def templateFails_def readVars_def
      varsFail_def readFails_def dataOf_def
    by (auto split: sum.splits if_splits)
qed

lemma scriptSection_empty:
  "Script cmd = [] \<Longrightarrow> scriptSection sup' w cmd clients tasks = Continue tasks"
  by (simp add: scriptSection_def)

lemma scriptSection_Continue:
  assumes "scriptSection sup' w cmd clients [] = Continue sc" "Script cmd \<noteq> []"
  shows "\<not> (Once cmd \<and> clients = [])"
    and "map Clients sc = clientPartition cmd clients"
    and "\<forall>t \<in> set sc. \<not> isTemplateTask t \<and> TTY t"
    and "\<not> scriptFails w cmd"
proof -
  from assms obtain task where a: "appendCommandTask cmd clients task [] = Continue sc"
    and t: "c_tty task"
    and f: "\<not> scriptFails w cmd"
    unfolding scriptSection_def scriptFails_def readFails_def debugStdin_def
    by (auto split: sum.splits simp: Let_def)
  note c = appendCommandTask_Continue [OF a]
  show "\<not> (Once cmd \<and> clients = [])" by (rule c(1))
  show "map Clients sc = clientPartition cmd clients"
    by (simp only: c(2) map_Clients_command)
  show "\<forall>t \<in> set sc. \<not> isTemplateTask t \<and> TTY t"
    using t by (auto simp: c(2))
  show "\<not> scriptFails w cmd" by (rule f)
qed

lemma runSection_empty:
  "Run cmd = [] \<Longrightarrow> runSection sup' cmd clients tasks = Continue tasks"
  by (simp add: runSection_def)

lemma runSection_Continue:
  assumes "runSection sup' cmd clients [] = Continue rn" "Run cmd \<noteq> []"
  shows "\<not> (Once cmd \<and> clients = [])"
    and "map Clients rn = clientPartition cmd clients"
    and "\<forall>t \<in> set rn. \<not> isTemplateTask t \<and> TTY t"
proof -
  from assms obtain task where a: "appendCommandTask cmd clients task [] = Continue rn"
    and t: "c_tty task"
    unfolding runSection_def debugStdin_def
    by (auto simp: Let_def)
  note c = appendCommandTask_Continue [OF a]
  show "\<not> (Once cmd \<and> clients = [])" by (rule c(1))
  show "map Clients rn = clientPartition cmd clients"
    by (simp only: c(2) map_Clients_command)
  show "\<forall>t \<in> set rn. \<not> isTemplateTask t \<and> TTY t"
    using t by (auto simp: c(2))
qed

lemma localSection_empty:
  "Local cmd = [] \<Longrightarrow> localSection sup' w cmd env tasks = Continue tasks"
  by (simp add: localSection_def)

lemma serialPartition_chunks:
  assumes "0 < n" "map Clients g = chunks n clients"
  shows "serialPartition n clients g"
proof -
  have len: "length g = length (chunks n clients)"
    using assms(2) by (metis length_map)
  have nth: "\<And>i. i < length g \<Longrightarrow> Clients (g ! i) = chunks n clients ! i"
    using assms(2) by (metis nth_map)
  have 1: "length g = ceilDiv (length clients) n"
    using len length_chunks [OF assms(1)] by simp
  have 2: "\<forall>t \<in> set g. length (Clients t) \<le> n"
  proof
    fix t assume "t \<in> set g"
    then have "Clients t \<in> set (chunks n clients)"
      using assms(2) by (metis image_eqI set_map)
    then show "length (Clients t) \<le> n" by (rule chunks_bounds(2))
  qed
  have 3: "concat (map Clients g) = clients"
    by (simp only: assms(2) concat_chunks [OF assms(1)])
  have 4: "distinct clients \<longrightarrow>
         (\<forall>i < length g. \<forall>j < length g. i \<noteq> j \<longrightarrow>
            set (Clients (g ! i)) \<inter> set (Clients (g ! j)) = {})"
  proof (intro impI allI)
    fix i j
    assume "distinct clients" "i < length g" "j < length g" "i \<noteq> j"
    then show "set (Clients (g ! i)) \<inter> set (Clients (g ! j)) = {}"
      using chunks_disjoint [OF assms(1), of clients i j] len nth by simp
  qed
  show ?thesis unfolding serialPartition_def using 1 2 3 4 by blast
qed

subsection \<open>Kinds of the appended tasks\<close>

lemma localSection_eq:
  "localSection sup' w cmd env tasks =
     Continue (tasks @
       (if Local cmd \<noteq> [] then
          [PCommandTask
             \<lparr>c_run = (if debug sup' then ''set -x;'' @ Local cmd else Local cmd),
              c_input = (if Stdin cmd then Some OsStdin else None),
              c_clients = [LocalhostClientPtr (Connect w \<lparr>l_env = env @ supHostLocalhost\<rparr> ''localhost'')],
              c_tty = True\<rparr>]
        else []))"
  by (simp add: localSection_def debugStdin_def Let_def)

lemma localSection_kind:
  "localSection sup' w cmd env [] = Continue lo \<Longrightarrow> \<forall>t \<in> set lo. \<not> isTemplateTask t \<and> TTY t"
  by (auto simp: localSection_eq split: if_splits)

lemma scriptSection_kind:
  assumes "scriptSection sup' w cmd clients [] = Continue sc"
  shows "\<forall>t \<in> set sc. \<not> isTemplateTask t \<and> TTY t"
proof (cases "Script cmd = []")
  case True
  then have "sc = []" using assms by (simp add: scriptSection_empty)
  then show ?thesis by simp
next
  case False
  then show ?thesis using assms by (rule scriptSection_Continue(3) [rotated])
qed

lemma runSection_kind:
  assumes "runSection sup' cmd clients [] = Continue rn"
  shows "\<forall>t \<in> set rn. \<not> isTemplateTask t \<and> TTY t"
proof (cases "Run cmd = []")
  case True
  then have "rn = []" using assms by (simp add: runSection_empty)
  then show ?thesis by simp
next
  case False
  then show ?thesis using assms by (rule runSection_Continue(3) [rotated])
qed

lemma templateSection_kind:
  assumes "templateSection w cmd clients [] = Continue tp"
  shows "\<forall>t \<in> set tp. isTemplateTask t"
proof (cases "templatePopulated cmd")
  case False
  then have "tp = []" using assms by (simp add: templateSection_empty)
  then show ?thesis by simp
next
  case True
  then show ?thesis using assms by (rule templateSection_Continue(2) [rotated])
qed

lemma list_all2_right:
  "list_all2 P xs ys \<Longrightarrow> y \<in> set ys \<Longrightarrow> \<exists>x \<in> set xs. P x y"
  by (induction rule: list_all2_induct) auto

lemma list_all2_left:
  "list_all2 P xs ys \<Longrightarrow> x \<in> set xs \<Longrightarrow> \<exists>y \<in> set ys. P x y"
  by (induction rule: list_all2_induct) auto

lemma uploads_kind:
  assumes "list_all2 (\<lambda>upload g. uploadEntry w cmd clients env cwd upload [] = Continue g) uploads ups"
  shows "\<forall>t \<in> set (concat ups). \<not> isTemplateTask t \<and> \<not> TTY t"
proof
  fix t assume "t \<in> set (concat ups)"
  then obtain g where g: "g \<in> set ups" "t \<in> set g" by auto
  from list_all2_right [OF assms g(1)]
  obtain upload where "uploadEntry w cmd clients env cwd upload [] = Continue g" by blast
  then show "\<not> isTemplateTask t \<and> \<not> TTY t"
    using uploadEntry_Continue(3) g(2) by blast
qed

subsection \<open>Errors and panics of the parts\<close>

lemma appendCommandTask_not_err: "appendCommandTask cmd clients task tasks \<noteq> ReturnErr e"
  by (auto simp: appendCommandTask_def split: list.splits)

lemma appendCommandTask_IndexPanic:
  "appendCommandTask cmd clients task tasks = IndexPanic \<longleftrightarrow> Once cmd \<and> clients = []"
  by (auto simp: appendCommandTask_def split: list.splits)

lemma uploadEntry_ReturnErr:
  "uploadEntry w cmd clients env cwd upload tasks = ReturnErr e \<Longrightarrow> uploadFails w cwd env upload"
  unfolding uploadEntry_def uploadFails_def
  by (auto split: sum.splits simp: appendCommandTask_not_err)

lemma uploadEntry_IndexPanic:
  "uploadEntry w cmd clients env cwd upload tasks = IndexPanic \<Longrightarrow> Once cmd \<and> clients = []"
  unfolding uploadEntry_def
  by (auto split: sum.splits simp: appendCommandTask_IndexPanic)

lemma uploadEntry_ok:
  assumes "\<not> uploadFails w cwd env upload" "\<not> (Once cmd \<and> clients = [])"
  shows "\<exists>g. uploadEntry w cmd clients env cwd upload tasks = Continue g"
proof (cases "uploadEntry w cmd clients env cwd upload tasks")
  case (Continue g)
  then show ?thesis by blast
next
  case (ReturnErr e)
  then show ?thesis using assms(1) uploadEntry_ReturnErr by blast
next
  case IndexPanic
  then show ?thesis using assms(2) uploadEntry_IndexPanic by blast
qed

lemma uploadEntry_panics:
  assumes "\<not> uploadFails w cwd env upload" "Once cmd" "clients = []"
  shows "uploadEntry w cmd clients env cwd upload tasks = IndexPanic"
  using assms unfolding uploadEntry_def uploadFails_def
  by (auto split: sum.splits simp: appendCommandTask_IndexPanic)

lemma uploadLoop_ReturnErr:
  "uploadLoop w cmd clients env cwd uploads tasks = ReturnErr e \<Longrightarrow>
   \<exists>upload \<in> set uploads. uploadFails w cwd env upload"
proof (induction uploads arbitrary: tasks)
  case Nil
  then show ?case by simp
next
  case (Cons upload uploads)
  then show ?case
    by (cases "uploadEntry w cmd clients env cwd upload tasks")
      (auto dest: uploadEntry_ReturnErr)
qed

lemma uploadLoop_IndexPanic:
  "uploadLoop w cmd clients env cwd uploads tasks = IndexPanic \<Longrightarrow>
   Once cmd \<and> clients = [] \<and> uploads \<noteq> []"
proof (induction uploads arbitrary: tasks)
  case Nil
  then show ?case by simp
next
  case (Cons upload uploads)
  then show ?case
    by (cases "uploadEntry w cmd clients env cwd upload tasks")
      (auto dest: uploadEntry_IndexPanic)
qed

lemma uploadLoop_ok:
  assumes "\<forall>upload \<in> set uploads. \<not> uploadFails w cwd env upload"
    and "\<not> (Once cmd \<and> clients = [] \<and> uploads \<noteq> [])"
  shows "\<exists>u. uploadLoop w cmd clients env cwd uploads tasks = Continue u"
proof (cases "uploadLoop w cmd clients env cwd uploads tasks")
  case (Continue u)
  then show ?thesis by blast
next
  case (ReturnErr e)
  from uploadLoop_ReturnErr [OF this] show ?thesis using assms(1) by blast
next
  case IndexPanic
  from uploadLoop_IndexPanic [OF this] show ?thesis using assms(2) by blast
qed

lemma uploadLoop_panics:
  assumes "\<forall>upload \<in> set uploads. \<not> uploadFails w cwd env upload"
    and "Once cmd" "clients = []" "uploads \<noteq> []"
  shows "uploadLoop w cmd clients env cwd uploads tasks = IndexPanic"
proof (cases uploads)
  case Nil
  then show ?thesis using assms by simp
next
  case (Cons upload rest)
  then have "\<not> uploadFails w cwd env upload" using assms(1) by simp
  then have "uploadEntry w cmd clients env cwd upload tasks = IndexPanic"
    using assms(2,3) by (rule uploadEntry_panics)
  then show ?thesis using Cons by simp
qed

lemma templateSection_not_panic: "templateSection w cmd clients tasks \<noteq> IndexPanic"
  unfolding templateSection_def by (auto split: sum.splits)

lemma templateSection_ReturnErr:
  "templateSection w cmd clients tasks = ReturnErr e \<Longrightarrow> templateFails w cmd"
  unfolding templateSection_def templatePopulated_def templateFails_def readVars_def
    varsFail_def readFails_def dataOf_def
  by (auto split: sum.splits if_splits)

lemma templateSection_ok:
  assumes "\<not> templateFails w cmd"
  shows "\<exists>tp. templateSection w cmd clients tasks = Continue tp"
proof (cases "templateSection w cmd clients tasks")
  case (Continue tp)
  then show ?thesis by blast
next
  case (ReturnErr e)
  from templateSection_ReturnErr [OF this] show ?thesis using assms by blast
next
  case IndexPanic
  then show ?thesis using templateSection_not_panic by blast
qed

lemma scriptSection_ReturnErr:
  "scriptSection sup' w cmd clients tasks = ReturnErr e \<Longrightarrow> scriptFails w cmd"
  unfolding scriptSection_def scriptFails_def readFails_def
  by (auto split: sum.splits if_splits simp: appendCommandTask_not_err)

lemma scriptSection_IndexPanic:
  "scriptSection sup' w cmd clients tasks = IndexPanic \<Longrightarrow>
   Once cmd \<and> clients = [] \<and> Script cmd \<noteq> []"
  unfolding scriptSection_def
  by (auto split: sum.splits if_splits simp: appendCommandTask_IndexPanic)

lemma scriptSection_panics:
  assumes "\<not> scriptFails w cmd" "Once cmd" "clients = []" "Script cmd \<noteq> []"
  shows "scriptSection sup' w cmd clients tasks = IndexPanic"
  using assms unfolding scriptSection_def scriptFails_def readFails_def
  by (auto split: sum.splits simp: appendCommandTask_IndexPanic)

lemma localSection_not_err: "localSection sup' w cmd env tasks \<noteq> ReturnErr e"
  by (simp add: localSection_eq)

lemma localSection_not_panic: "localSection sup' w cmd env tasks \<noteq> IndexPanic"
  by (simp add: localSection_eq)

lemma runSection_not_err: "runSection sup' cmd clients tasks \<noteq> ReturnErr e"
  by (simp add: runSection_def appendCommandTask_not_err)

lemma runSection_IndexPanic:
  "runSection sup' cmd clients tasks = IndexPanic \<longleftrightarrow> Once cmd \<and> clients = [] \<and> Run cmd \<noteq> []"
  by (auto simp: runSection_def appendCommandTask_IndexPanic)

subsection \<open>Outcomes of the builder\<close>

lemma createTasks_shape:
  "createTasks sup' w cmd clients env = Panicked \<or>
   (\<exists>ts. createTasks sup' w cmd clients env = Returned (ts, None)) \<or>
   (\<exists>e. createTasks sup' w cmd clients env = Returned ([], Some e))"
  unfolding createTasks_def by (simp split: sum.split step.split)

lemma createTasks_Panicked:
  assumes "createTasks sup' w cmd clients env = Panicked"
  shows "indexesFirst cmd \<and> clients = []"
  using assms unfolding createTasks_def
  by (auto split: sum.splits step.splits
      simp: indexesFirst_def templateSection_not_panic localSection_not_panic runSection_IndexPanic
      dest: uploadLoop_IndexPanic scriptSection_IndexPanic)

lemma createTasks_error:
  assumes "createTasks sup' w cmd clients env = Returned (ts, Some e)"
  shows "ts = [] \<and> stepFails w cmd env"
  using assms unfolding createTasks_def
  by (auto split: sum.splits step.splits
      simp: stepFails_def localSection_not_err runSection_not_err
      dest: uploadLoop_ReturnErr templateSection_ReturnErr scriptSection_ReturnErr)

lemma createTasks_Returned_ok:
  assumes "createTasks sup' w cmd clients env = Returned (ts, None)"
  shows "\<not> stepFails w cmd env"
proof -
  from assms obtain ups tp sc lo rn where
    s: "sectionTasks sup' w cmd clients env ups tp sc lo rn"
    by (auto simp: createTasks_Returned)
  from s obtain cwd where cwd: "Getwd w = Inr cwd" and
    u: "list_all2 (\<lambda>upload g. uploadEntry w cmd clients env cwd upload [] = Continue g)
          (Upload cmd) ups" and
    t: "templateSection w cmd clients [] = Continue tp" and
    c: "scriptSection sup' w cmd clients [] = Continue sc"
    unfolding sectionTasks_def by (auto split: sum.splits)
  have 1: "\<forall>upload \<in> set (Upload cmd). \<not> uploadFails w cwd env upload"
  proof
    fix upload assume "upload \<in> set (Upload cmd)"
    from list_all2_left [OF u this]
    obtain g where "uploadEntry w cmd clients env cwd upload [] = Continue g" by blast
    then show "\<not> uploadFails w cwd env upload" by (rule uploadEntry_Continue(4))
  qed
  have 2: "\<not> templateFails w cmd"
  proof (cases "templatePopulated cmd")
    case True
    with t show ?thesis by (rule templateSection_Continue(3))
  next
    case False
    then show ?thesis by (simp add: templateFails_def)
  qed
  have 3: "\<not> scriptFails w cmd"
  proof (cases "Script cmd = []")
    case True
    then show ?thesis by (simp add: scriptFails_def)
  next
    case False
    with c show ?thesis by (rule scriptSection_Continue(4))
  qed
  show ?thesis using cwd 1 2 3 by (simp add: stepFails_def)
qed

lemma createTasks_fails:
  assumes "stepFails w cmd env" "Once cmd \<longrightarrow> clients \<noteq> []"
  shows "\<exists>e. createTasks sup' w cmd clients env = Returned ([], Some e)"
proof -
  have 1: "createTasks sup' w cmd clients env \<noteq> Panicked"
    using createTasks_Panicked [of sup' w cmd clients env] assms(2)
    by (auto simp: indexesFirst_def)
  have 2: "\<And>ts. createTasks sup' w cmd clients env \<noteq> Returned (ts, None)"
    using createTasks_Returned_ok [of sup' w cmd clients env] assms(1) by blast
  show ?thesis using createTasks_shape [of sup' w cmd clients env] 1 2 by blast
qed

lemma createTasks_panics:
  assumes "indexesFirst cmd" "clients = []" "\<not> stepFails w cmd env"
  shows "createTasks sup' w cmd clients env = Panicked"
proof -
  have 1: "\<And>e. createTasks sup' w cmd clients env \<noteq> Returned ([], Some e)"
    using createTasks_error [of sup' w cmd clients env] assms(3) by blast
  have 2: "\<And>ts. createTasks sup' w cmd clients env \<noteq> Returned (ts, None)"
  proof
    fix ts assume "createTasks sup' w cmd clients env = Returned (ts, None)"
    then obtain ups tp sc lo rn where
      s: "sectionTasks sup' w cmd clients env ups tp sc lo rn"
      by (auto simp: createTasks_Returned)
    from s obtain cwd where
      u: "list_all2 (\<lambda>upload g. uploadEntry w cmd clients env cwd upload [] = Continue g)
            (Upload cmd) ups" and
      c: "scriptSection sup' w cmd clients [] = Continue sc" and
      r: "runSection sup' cmd clients [] = Continue rn"
      unfolding sectionTasks_def by (auto split: sum.splits)
    from assms(1) consider "Upload cmd \<noteq> []" | "Script cmd \<noteq> []" | "Run cmd \<noteq> []"
      by (auto simp: indexesFirst_def)
    then show False
    proof cases
      case 1
      then obtain upload where "upload \<in> set (Upload cmd)" by (cases "Upload cmd") auto
      from list_all2_left [OF u this]
      obtain g where "uploadEntry w cmd clients env cwd upload [] = Continue g" by blast
      from uploadEntry_Continue(1) [OF this] show False
        using assms(1,2) by (simp add: indexesFirst_def)
    next
      case 2
      from scriptSection_Continue(1) [OF c 2] show False
        using assms(1,2) by (simp add: indexesFirst_def)
    next
      case 3
      from runSection_Continue(1) [OF r 3] show False
        using assms(1,2) by (simp add: indexesFirst_def)
    qed
  qed
  show ?thesis using createTasks_shape [of sup' w cmd clients env] 1 2 by blast
qed

lemma clientPartition_once:
  "Once cmd \<Longrightarrow> clients \<noteq> [] \<Longrightarrow> clientPartition cmd clients = [[hd clients]]"
  by (cases clients) (simp_all add: clientPartition_def)

lemma sectionTasksD:
  assumes "sectionTasks sup' w cmd clients env ups tp sc lo rn"
  obtains cwd where "Getwd w = Inr cwd"
    and "list_all2 (\<lambda>upload g. uploadEntry w cmd clients env cwd upload [] = Continue g)
          (Upload cmd) ups"
    and "templateSection w cmd clients [] = Continue tp"
    and "scriptSection sup' w cmd clients [] = Continue sc"
    and "localSection sup' w cmd env [] = Continue lo"
    and "runSection sup' cmd clients [] = Continue rn"
  using assms unfolding sectionTasks_def by (auto split: sum.splits)

lemma createTasks_template_error:
  assumes "Getwd w = Inr cwd"
    and "\<forall>upload \<in> set (Upload cmd). \<not> uploadFails w cwd env upload"
    and "\<not> (Once cmd \<and> clients = [] \<and> Upload cmd \<noteq> [])"
    and "templateSection w cmd clients [] = ReturnErr e"
  shows "createTasks sup' w cmd clients env = Returned ([], Some e)"
proof -
  from uploadLoop_ok [OF assms(2,3)]
  obtain u where u: "uploadLoop w cmd clients env cwd (Upload cmd) [] = Continue u" by blast
  have "templateSection w cmd clients u = onto u (templateSection w cmd clients [])"
    by (rule templateSection_onto)
  then have t: "templateSection w cmd clients u = ReturnErr e"
    by (simp only: assms(4) onto.simps)
  show ?thesis
    unfolding createTasks_def by (simp add: assms(1) u t)
qed

lemma templateSection_parse_error:
  assumes "templatePopulated cmd"
    and "Open w (Template.Src (Template cmd)) = Inr f" and "ReadAll w f = Inr data"
    and "Parse w data = Inl err"
  shows "templateSection w cmd clients tasks = ReturnErr (Wrap err ''can't parse template'')"
  using assms by (simp add: templateSection_def templatePopulated_def)

lemma templateSection_decode_error:
  assumes "templatePopulated cmd"
    and "Open w (Template.Src (Template cmd)) = Inr f" and "ReadAll w f = Inr data"
    and "Parse w data = Inr tmpl"
    and "Vars (Template cmd) \<noteq> []"
    and "Open w (Vars (Template cmd)) = Inr varf" and "ReadAll w varf = Inr vardata"
    and "Unmarshal w vardata = Inl err"
  shows "templateSection w cmd clients tasks = ReturnErr (Wrap err ''can't parse variables'')"
  using assms by (simp add: templateSection_def templatePopulated_def readVars_def)

lemma filter_none: "\<forall>t \<in> set xs. \<not> P t \<Longrightarrow> filter P xs = []"
  by (induction xs) simp_all

lemma filter_all: "\<forall>t \<in> set xs. P t \<Longrightarrow> filter P xs = xs"
  by (induction xs) simp_all

lemma readVars_Once: "readVars w (cmd\<lparr>Once := b\<rparr>) = readVars w cmd"
  by (simp add: readVars_def)

lemma appendTemplateTask_Once:
  "appendTemplateTask (cmd\<lparr>Once := b\<rparr>) clients task tasks =
   appendTemplateTask cmd clients task tasks"
  by (simp add: appendTemplateTask_def)

lemma templateSection_Once:
  "templateSection w (cmd\<lparr>Once := b\<rparr>) clients tasks = templateSection w cmd clients tasks"
  by (auto simp: templateSection_def readVars_Once appendTemplateTask_Once split: sum.splits)

lemma clientPartition_slices:
  assumes "cs \<in> set (clientPartition cmd clients)" "clients \<noteq> []"
  shows "\<exists>i j. i < j \<and> j \<le> length clients \<and> cs = slice clients i j"
proof (cases "Once cmd")
  case True
  then have "cs = slice clients 0 1" using assms
    by (simp add: clientPartition_def slice_def)
  moreover have "(0::nat) < 1 \<and> 1 \<le> length clients" using assms(2) by (cases clients) simp_all
  ultimately show ?thesis by blast
next
  case False
  show ?thesis
  proof (cases "0 < Serial cmd")
    case True
    then have "cs \<in> set (chunks (nat (Serial cmd)) clients)"
      using False assms(1) by (simp add: clientPartition_def)
    then show ?thesis by (rule chunks_is_slice)
  next
    case False': False
    then have "cs = slice clients 0 (length clients)"
      using False assms(1) by (simp add: clientPartition_def slice_def)
    moreover have "0 < length clients" using assms(2) by simp
    ultimately show ?thesis by blast
  qed
qed

lemma templatePartition_slices:
  assumes "cs \<in> set (templatePartition cmd clients)" "clients \<noteq> []"
  shows "\<exists>i j. i < j \<and> j \<le> length clients \<and> cs = slice clients i j"
proof (cases "0 < Serial cmd")
  case True
  then have "cs \<in> set (chunks (nat (Serial cmd)) clients)"
    using assms(1) by (simp add: templatePartition_def)
  then show ?thesis by (rule chunks_is_slice)
next
  case False
  then have "cs = slice clients 0 (length clients)"
    using assms(1) by (simp add: templatePartition_def slice_def)
  moreover have "0 < length clients" using assms(2) by simp
  ultimately show ?thesis by blast
qed

lemma slice_nonempty: "i < j \<Longrightarrow> j \<le> length xs \<Longrightarrow> slice xs i j \<noteq> []"
  by (simp add: slice_def)

lemma Clients_in_map: "t \<in> set g \<Longrightarrow> map Clients g = css \<Longrightarrow> Clients t \<in> set css"
  by auto

lemma slice_ok:
  assumes "\<exists>i j. i < j \<and> j \<le> length xs \<and> cs = slice xs i j"
  shows "cs \<noteq> [] \<and> (\<exists>i j. i < j \<and> j \<le> length xs \<and> cs = slice xs i j)"
proof -
  from assms obtain i j where ij: "i < j" "j \<le> length xs" "cs = slice xs i j"
    by (elim exE conjE)
  have "cs \<noteq> []" using slice_nonempty [OF ij(1,2)] ij(3) by simp
  then show ?thesis using assms by (intro conjI)
qed


section \<open>Evaluating the builder\<close>

lemmas example_defs = exampleWorld_def exampleStackup_def emptyCommand_def exampleUpload_def
  exampleTemplate_def fiveClients_def

lemmas builder_defs = createTasks_def uploadEntry_def templateSection_def readVars_def
  scriptSection_def localSection_def runSection_def appendCommandTask_def appendTemplateTask_def
  debugStdin_def

lemma createTasks_serialRun:
  "createTasks exampleStackup exampleWorld serialRun fiveClients [] =
     Returned
       ([PCommandTask \<lparr>c_run = ''uptime'', c_input = None,
           c_clients = [OtherClient 0, OtherClient 1], c_tty = True\<rparr>,
         PCommandTask \<lparr>c_run = ''uptime'', c_input = None,
           c_clients = [OtherClient 2, OtherClient 3], c_tty = True\<rparr>,
         PCommandTask \<lparr>c_run = ''uptime'', c_input = None,
           c_clients = [OtherClient 4], c_tty = True\<rparr>], None)"
  by (simp add: serialRun_def example_defs builder_defs serialLoop.simps slice_def Let_def)

lemma createTasks_onceAll:
  "createTasks exampleStackup exampleWorld onceAll fiveClients [] =
     Returned
       ([PCommandTask \<lparr>c_run = ''tar -C /srv/app -xzf -'',
           c_input = Some (TarStreamReader ''/home/deploy/dist''),
           c_clients = [OtherClient 0], c_tty = False\<rparr>,
         PCommandTask \<lparr>c_run = ''contents of deploy.sh'', c_input = None,
           c_clients = [OtherClient 0], c_tty = True\<rparr>,
         PCommandTask \<lparr>c_run = ''uptime'', c_input = None,
           c_clients = [OtherClient 0], c_tty = True\<rparr>], None)"
  by (simp add: onceAll_def example_defs builder_defs)

lemma createTasks_allFive:
  "createTasks exampleStackup exampleWorld allFive twoClients ''export A=1;'' =
     Returned
       ([PCommandTask \<lparr>c_run = ''tar -C /srv/app -xzf -'',
           c_input = Some (TarStreamReader ''/home/deploy/dist''),
           c_clients = [OtherClient 0, OtherClient 1], c_tty = False\<rparr>,
         PTemplateTask \<lparr>t_tmpl = ''contents of example/test.tpl'', t_dst = ''/tmp/test'',
           t_vars = Map.empty, t_clients = [OtherClient 0, OtherClient 1]\<rparr>,
         PCommandTask \<lparr>c_run = ''contents of deploy.sh'', c_input = None,
           c_clients = [OtherClient 0, OtherClient 1], c_tty = True\<rparr>,
         PCommandTask \<lparr>c_run = ''echo hi'', c_input = None,
           c_clients = [LocalhostClientPtr \<lparr>l_env = ''export A=1;'' @ supHostLocalhost\<rparr>],
           c_tty = True\<rparr>,
         PCommandTask \<lparr>c_run = ''uptime'', c_input = None,
           c_clients = [OtherClient 0, OtherClient 1], c_tty = True\<rparr>], None)"
  by (simp add: allFive_def twoClients_def example_defs builder_defs)

lemma createTasks_parseFails:
  "createTasks exampleStackup parseFailsWorld allFive fiveClients [] =
     Returned ([], Some ''can't parse template: template: tpl:1: unexpected EOF'')"
  by (simp add: allFive_def parseFailsWorld_def example_defs builder_defs Wrap_def)

lemma createTasks_decodeFails:
  "createTasks exampleStackup decodeFailsWorld (emptyCommand\<lparr>Template := exampleTemplate\<rparr>)
       fiveClients [] =
     Returned ([], Some ''can't parse variables: yaml: line 1: did not find expected key'')"
  by (simp add: decodeFailsWorld_def example_defs builder_defs Wrap_def)

lemma createTasks_onceTemplate:
  "createTasks exampleStackup exampleWorld (emptyCommand\<lparr>Template := exampleTemplate, Once := True\<rparr>)
       twoClients [] =
     Returned
       ([PTemplateTask \<lparr>t_tmpl = ''contents of example/test.tpl'', t_dst = ''/tmp/test'',
           t_vars = Map.empty, t_clients = [OtherClient 0, OtherClient 1]\<rparr>], None)"
  by (simp add: twoClients_def example_defs builder_defs)

lemma createTasks_localOnly:
  "createTasks exampleStackup exampleWorld (emptyCommand\<lparr>Local := ''echo hi''\<rparr>)
       ([] :: nat Client list) ''export A=1;'' =
     Returned
       ([PCommandTask \<lparr>c_run = ''echo hi'', c_input = None,
           c_clients = [LocalhostClientPtr \<lparr>l_env = ''export A=1;'' @ supHostLocalhost\<rparr>],
           c_tty = True\<rparr>], None)"
  by (simp add: example_defs builder_defs)

lemma createTasks_onceRun_empty:
  "createTasks exampleStackup exampleWorld (emptyCommand\<lparr>Run := ''uptime'', Once := True\<rparr>)
       ([] :: nat Client list) [] = Panicked"
  by (simp add: example_defs builder_defs)

section \<open>The claims\<close>

text \<open>
  C1, as amended. When the build succeeds with \<open>Serial = N > 0\<close> and \<open>Once = false\<close>,
  the task list is the concatenation of the tasks of the upload entries, the template,
  the script, the local command and the remote command. The tasks of every single
  upload entry, and those of the template, the script and the remote command when they
  are populated, are \<open>ceil(L/N)\<close> tasks with at most \<open>N\<close> clients each, whose client
  sets in task order give the client list back; when the client list holds no client
  twice, no client is in two tasks of such a group.
\<close>

theorem createTasks_serial_partition:
  assumes "createTasks sup' w cmd clients env = Returned (ts, None)"
    and "0 < Serial cmd" and "\<not> Once cmd"
  shows "\<exists>ups tp sc lo rn.
           sectionTasks sup' w cmd clients env ups tp sc lo rn \<and>
           ts = concat ups @ tp @ sc @ lo @ rn \<and>
           length ups = length (Upload cmd) \<and>
           (\<forall>g \<in> set ups. serialPartition (nat (Serial cmd)) clients g) \<and>
           (templatePopulated cmd \<longrightarrow> serialPartition (nat (Serial cmd)) clients tp) \<and>
           (Script cmd \<noteq> [] \<longrightarrow> serialPartition (nat (Serial cmd)) clients sc) \<and>
           (Run cmd \<noteq> [] \<longrightarrow> serialPartition (nat (Serial cmd)) clients rn)"
proof -
  from assms(1) obtain ups tp sc lo rn where
    s: "sectionTasks sup' w cmd clients env ups tp sc lo rn" and
    ts: "ts = concat ups @ tp @ sc @ lo @ rn"
    by (auto simp: createTasks_Returned)
  from s obtain cwd where
    u: "list_all2 (\<lambda>upload g. uploadEntry w cmd clients env cwd upload [] = Continue g)
          (Upload cmd) ups" and
    t: "templateSection w cmd clients [] = Continue tp" and
    c: "scriptSection sup' w cmd clients [] = Continue sc" and
    r: "runSection sup' cmd clients [] = Continue rn"
    unfolding sectionTasks_def by (auto split: sum.splits)
  have n: "0 < nat (Serial cmd)" using assms(2) by simp
  have p: "clientPartition cmd clients = chunks (nat (Serial cmd)) clients"
    using assms(2,3) by (simp add: clientPartition_def)
  have q: "templatePartition cmd clients = chunks (nat (Serial cmd)) clients"
    using assms(2) by (simp add: templatePartition_def)
  have 1: "length ups = length (Upload cmd)"
    using u by (simp add: list_all2_lengthD)
  have 2: "\<forall>g \<in> set ups. serialPartition (nat (Serial cmd)) clients g"
  proof
    fix g assume "g \<in> set ups"
    then obtain upload where "uploadEntry w cmd clients env cwd upload [] = Continue g"
      using u by (auto simp: list_all2_conv_all_nth in_set_conv_nth)
    then have "map Clients g = chunks (nat (Serial cmd)) clients"
      using uploadEntry_Continue(2) p by metis
    then show "serialPartition (nat (Serial cmd)) clients g"
      by (rule serialPartition_chunks [OF n])
  qed
  have 3: "templatePopulated cmd \<longrightarrow> serialPartition (nat (Serial cmd)) clients tp"
  proof
    assume "templatePopulated cmd"
    then have "map Clients tp = chunks (nat (Serial cmd)) clients"
      using templateSection_Continue(1) [OF t] q by simp
    then show "serialPartition (nat (Serial cmd)) clients tp"
      by (rule serialPartition_chunks [OF n])
  qed
  have 4: "Script cmd \<noteq> [] \<longrightarrow> serialPartition (nat (Serial cmd)) clients sc"
  proof
    assume "Script cmd \<noteq> []"
    then have "map Clients sc = chunks (nat (Serial cmd)) clients"
      using scriptSection_Continue(2) [OF c] p by simp
    then show "serialPartition (nat (Serial cmd)) clients sc"
      by (rule serialPartition_chunks [OF n])
  qed
  have 5: "Run cmd \<noteq> [] \<longrightarrow> serialPartition (nat (Serial cmd)) clients rn"
  proof
    assume "Run cmd \<noteq> []"
    then have "map Clients rn = chunks (nat (Serial cmd)) clients"
      using runSection_Continue(2) [OF r] p by simp
    then show "serialPartition (nat (Serial cmd)) clients rn"
      by (rule serialPartition_chunks [OF n])
  qed
  show ?thesis using s ts 1 2 3 4 5 by blast
qed

theorem createTasks_serial_partition_witness:
  "createTasks exampleStackup exampleWorld serialRun fiveClients [] =
     Returned
       ([PCommandTask \<lparr>c_run = ''uptime'', c_input = None,
           c_clients = [OtherClient 0, OtherClient 1], c_tty = True\<rparr>,
         PCommandTask \<lparr>c_run = ''uptime'', c_input = None,
           c_clients = [OtherClient 2, OtherClient 3], c_tty = True\<rparr>,
         PCommandTask \<lparr>c_run = ''uptime'', c_input = None,
           c_clients = [OtherClient 4], c_tty = True\<rparr>], None) \<and>
   0 < Serial serialRun \<and> \<not> Once serialRun \<and> Run serialRun \<noteq> [] \<and>
   (\<exists>ups tp sc lo rn.
      sectionTasks exampleStackup exampleWorld serialRun fiveClients [] ups tp sc lo rn \<and>
      serialPartition 2 fiveClients rn)"
proof -
  have h: "0 < Serial serialRun" "\<not> Once serialRun" "Run serialRun \<noteq> []"
      "nat (Serial serialRun) = 2"
    by (simp_all add: serialRun_def emptyCommand_def)
  from createTasks_serial_partition [OF createTasks_serialRun h(1,2)] h(3)
  have "\<exists>ups tp sc lo rn.
      sectionTasks exampleStackup exampleWorld serialRun fiveClients [] ups tp sc lo rn \<and>
      serialPartition (nat (Serial serialRun)) fiveClients rn"
    by blast
  then show ?thesis using createTasks_serialRun h by simp
qed

text \<open>
  C1 as stated fails at two inputs. With two upload entries, one client and
  \<open>Serial = 1\<close> the upload part yields two tasks, not \<open>ceil(1/1) = 1\<close>, and the one
  client is in both. With the remote command, \<open>Serial = 1\<close> and a client list that
  holds the same client twice, that client is in both tasks.
\<close>

theorem createTasks_serial_partition_counterexample:
  "createTasks exampleStackup exampleWorld twoUploads [OtherClient (0::nat)] [] =
     Returned
       ([PCommandTask \<lparr>c_run = ''tar -C /srv/app -xzf -'',
           c_input = Some (TarStreamReader ''/home/deploy/dist''),
           c_clients = [OtherClient 0], c_tty = False\<rparr>,
         PCommandTask \<lparr>c_run = ''tar -C /srv/app -xzf -'',
           c_input = Some (TarStreamReader ''/home/deploy/conf''),
           c_clients = [OtherClient 0], c_tty = False\<rparr>], None) \<and>
   0 < Serial twoUploads \<and> \<not> Once twoUploads \<and>
   ceilDiv (length [OtherClient (0::nat)]) (nat (Serial twoUploads)) = 1 \<and>
   createTasks exampleStackup exampleWorld (emptyCommand\<lparr>Run := ''uptime'', Serial := 1\<rparr>)
       [OtherClient (0::nat), OtherClient 0] [] =
     Returned
       ([PCommandTask \<lparr>c_run = ''uptime'', c_input = None,
           c_clients = [OtherClient 0], c_tty = True\<rparr>,
         PCommandTask \<lparr>c_run = ''uptime'', c_input = None,
           c_clients = [OtherClient 0], c_tty = True\<rparr>], None)"
  by (simp add: twoUploads_def example_defs builder_defs serialLoop.simps slice_def Let_def
      Wrap_def ceilDiv_def)

text \<open>
  C2, as amended. When the build succeeds on a non-empty client list with \<open>Once\<close> set,
  whatever \<open>Serial\<close> is, every single upload entry yields exactly one task, and so do
  the script and the remote command when they are populated; the client set of each of
  these tasks is the first client of the list and nothing else.
\<close>

theorem createTasks_once:
  assumes "createTasks sup' w cmd clients env = Returned (ts, None)"
    and "clients \<noteq> []" and "Once cmd"
  shows "\<exists>ups tp sc lo rn.
           sectionTasks sup' w cmd clients env ups tp sc lo rn \<and>
           ts = concat ups @ tp @ sc @ lo @ rn \<and>
           length ups = length (Upload cmd) \<and>
           (\<forall>g \<in> set ups. map Clients g = [[hd clients]]) \<and>
           (Script cmd \<noteq> [] \<longrightarrow> map Clients sc = [[hd clients]]) \<and>
           (Run cmd \<noteq> [] \<longrightarrow> map Clients rn = [[hd clients]])"
proof -
  from assms(1) obtain ups tp sc lo rn where
    s: "sectionTasks sup' w cmd clients env ups tp sc lo rn" and
    ts: "ts = concat ups @ tp @ sc @ lo @ rn"
    by (auto simp: createTasks_Returned)
  from s obtain cwd where
    u: "list_all2 (\<lambda>upload g. uploadEntry w cmd clients env cwd upload [] = Continue g)
          (Upload cmd) ups" and
    c: "scriptSection sup' w cmd clients [] = Continue sc" and
    r: "runSection sup' cmd clients [] = Continue rn"
    by (rule sectionTasksD) blast
  note p = clientPartition_once [OF assms(3,2)]
  have 1: "length ups = length (Upload cmd)"
    using u by (simp add: list_all2_lengthD)
  have 2: "\<forall>g \<in> set ups. map Clients g = [[hd clients]]"
  proof
    fix g assume "g \<in> set ups"
    from list_all2_right [OF u this]
    obtain upload where "uploadEntry w cmd clients env cwd upload [] = Continue g" by blast
    from uploadEntry_Continue(2) [OF this] show "map Clients g = [[hd clients]]"
      by (simp only: p)
  qed
  have 3: "Script cmd \<noteq> [] \<longrightarrow> map Clients sc = [[hd clients]]"
  proof
    assume "Script cmd \<noteq> []"
    from scriptSection_Continue(2) [OF c this] show "map Clients sc = [[hd clients]]"
      by (simp only: p)
  qed
  have 4: "Run cmd \<noteq> [] \<longrightarrow> map Clients rn = [[hd clients]]"
  proof
    assume "Run cmd \<noteq> []"
    from runSection_Continue(2) [OF r this] show "map Clients rn = [[hd clients]]"
      by (simp only: p)
  qed
  have "sectionTasks sup' w cmd clients env ups tp sc lo rn \<and>
           ts = concat ups @ tp @ sc @ lo @ rn \<and>
           length ups = length (Upload cmd) \<and>
           (\<forall>g \<in> set ups. map Clients g = [[hd clients]]) \<and>
           (Script cmd \<noteq> [] \<longrightarrow> map Clients sc = [[hd clients]]) \<and>
           (Run cmd \<noteq> [] \<longrightarrow> map Clients rn = [[hd clients]])"
    using s ts 1 2 3 4 by (intro conjI)
  then show ?thesis by (intro exI)
qed

theorem createTasks_once_witness:
  "createTasks exampleStackup exampleWorld onceAll fiveClients [] =
     Returned
       ([PCommandTask \<lparr>c_run = ''tar -C /srv/app -xzf -'',
           c_input = Some (TarStreamReader ''/home/deploy/dist''),
           c_clients = [OtherClient 0], c_tty = False\<rparr>,
         PCommandTask \<lparr>c_run = ''contents of deploy.sh'', c_input = None,
           c_clients = [OtherClient 0], c_tty = True\<rparr>,
         PCommandTask \<lparr>c_run = ''uptime'', c_input = None,
           c_clients = [OtherClient 0], c_tty = True\<rparr>], None) \<and>
   fiveClients \<noteq> [] \<and> Once onceAll \<and> Serial onceAll = 2 \<and>
   hd fiveClients = OtherClient 0 \<and> length (Upload onceAll) = 1 \<and>
   Script onceAll \<noteq> [] \<and> Run onceAll \<noteq> [] \<and>
   (\<exists>ups tp sc lo rn.
      sectionTasks exampleStackup exampleWorld onceAll fiveClients [] ups tp sc lo rn \<and>
      [PCommandTask \<lparr>c_run = ''tar -C /srv/app -xzf -'',
           c_input = Some (TarStreamReader ''/home/deploy/dist''),
           c_clients = [OtherClient 0], c_tty = False\<rparr>,
         PCommandTask \<lparr>c_run = ''contents of deploy.sh'', c_input = None,
           c_clients = [OtherClient 0], c_tty = True\<rparr>,
         PCommandTask \<lparr>c_run = ''uptime'', c_input = None,
           c_clients = [OtherClient 0], c_tty = True\<rparr>] = concat ups @ tp @ sc @ lo @ rn \<and>
      length ups = length (Upload onceAll) \<and>
      (\<forall>g \<in> set ups. map Clients g = [[hd fiveClients]]) \<and>
      (Script onceAll \<noteq> [] \<longrightarrow> map Clients sc = [[hd fiveClients]]) \<and>
      (Run onceAll \<noteq> [] \<longrightarrow> map Clients rn = [[hd fiveClients]]))"
proof -
  have h: "fiveClients \<noteq> []" "Once onceAll" "Serial onceAll = 2"
      "hd fiveClients = OtherClient 0" "length (Upload onceAll) = 1"
      "Script onceAll \<noteq> []" "Run onceAll \<noteq> []"
    by (simp_all add: onceAll_def emptyCommand_def fiveClients_def)
  note t = createTasks_once [OF createTasks_onceAll h(1,2)]
  show ?thesis using createTasks_onceAll h t by (intro conjI)
qed

text \<open>
  C2 as stated fails for an upload list with two entries: with \<open>Once\<close> set the upload
  part yields two tasks, one for each entry, both for the first client.
\<close>

theorem createTasks_once_counterexample:
  "createTasks exampleStackup exampleWorld (twoUploads\<lparr>Once := True\<rparr>) fiveClients [] =
     Returned
       ([PCommandTask \<lparr>c_run = ''tar -C /srv/app -xzf -'',
           c_input = Some (TarStreamReader ''/home/deploy/dist''),
           c_clients = [OtherClient 0], c_tty = False\<rparr>,
         PCommandTask \<lparr>c_run = ''tar -C /srv/app -xzf -'',
           c_input = Some (TarStreamReader ''/home/deploy/conf''),
           c_clients = [OtherClient 0], c_tty = False\<rparr>], None) \<and>
   Once (twoUploads\<lparr>Once := True\<rparr>) \<and> fiveClients \<noteq> [] \<and>
   Upload (twoUploads\<lparr>Once := True\<rparr>) \<noteq> []"
  by (simp add: twoUploads_def example_defs builder_defs)

text \<open>
  C3. When \<open>Upload\<close>, \<open>Template\<close>, \<open>Script\<close>, \<open>Local\<close> and \<open>Run\<close> are all
  populated and the build succeeds, the task list is the tasks of the upload entries
  (command tasks without a TTY), then the template tasks, then the script tasks, then
  the one task of the local command, then the tasks of the remote command; the client
  sets inside each group are the partition of the whole client list by the policy of
  that group.
\<close>

theorem createTasks_order:
  assumes "createTasks sup' w cmd clients env = Returned (ts, None)"
    and "Upload cmd \<noteq> []" and "templatePopulated cmd" and "Script cmd \<noteq> []"
    and "Local cmd \<noteq> []" and "Run cmd \<noteq> []"
  shows "\<exists>ups tp sc lo rn.
           sectionTasks sup' w cmd clients env ups tp sc lo rn \<and>
           ts = concat ups @ tp @ sc @ lo @ rn \<and>
           length ups = length (Upload cmd) \<and>
           (\<forall>g \<in> set ups. map Clients g = clientPartition cmd clients) \<and>
           (\<forall>t \<in> set (concat ups). \<not> isTemplateTask t \<and> \<not> TTY t) \<and>
           map Clients tp = templatePartition cmd clients \<and>
           (\<forall>t \<in> set tp. isTemplateTask t) \<and>
           map Clients sc = clientPartition cmd clients \<and>
           (\<forall>t \<in> set sc. \<not> isTemplateTask t \<and> TTY t) \<and>
           map Clients lo =
             [[LocalhostClientPtr (Connect w \<lparr>l_env = env @ supHostLocalhost\<rparr> ''localhost'')]] \<and>
           (\<forall>t \<in> set lo. \<not> isTemplateTask t \<and> TTY t) \<and>
           map Clients rn = clientPartition cmd clients \<and>
           (\<forall>t \<in> set rn. \<not> isTemplateTask t \<and> TTY t)"
proof -
  from assms(1) obtain ups tp sc lo rn where
    s: "sectionTasks sup' w cmd clients env ups tp sc lo rn" and
    ts: "ts = concat ups @ tp @ sc @ lo @ rn"
    by (auto simp: createTasks_Returned)
  from s obtain cwd where
    u: "list_all2 (\<lambda>upload g. uploadEntry w cmd clients env cwd upload [] = Continue g)
          (Upload cmd) ups" and
    t: "templateSection w cmd clients [] = Continue tp" and
    c: "scriptSection sup' w cmd clients [] = Continue sc" and
    l: "localSection sup' w cmd env [] = Continue lo" and
    r: "runSection sup' cmd clients [] = Continue rn"
    by (rule sectionTasksD) blast
  have 1: "length ups = length (Upload cmd)"
    using u by (simp add: list_all2_lengthD)
  have 2: "\<forall>g \<in> set ups. map Clients g = clientPartition cmd clients"
  proof
    fix g assume "g \<in> set ups"
    from list_all2_right [OF u this]
    obtain upload where "uploadEntry w cmd clients env cwd upload [] = Continue g" by blast
    then show "map Clients g = clientPartition cmd clients"
      by (rule uploadEntry_Continue(2))
  qed
  note 3 = uploads_kind [OF u]
  note 4 = templateSection_Continue(1) [OF t assms(3)]
  note 5 = templateSection_Continue(2) [OF t assms(3)]
  note 6 = scriptSection_Continue(2) [OF c assms(4)]
  note 7 = scriptSection_Continue(3) [OF c assms(4)]
  have 8: "map Clients lo =
      [[LocalhostClientPtr (Connect w \<lparr>l_env = env @ supHostLocalhost\<rparr> ''localhost'')]]"
    using l assms(5) by (auto simp: localSection_eq)
  note 9 = localSection_kind [OF l]
  note 10 = runSection_Continue(2) [OF r assms(6)]
  note 11 = runSection_Continue(3) [OF r assms(6)]
  have "sectionTasks sup' w cmd clients env ups tp sc lo rn \<and>
           ts = concat ups @ tp @ sc @ lo @ rn \<and>
           length ups = length (Upload cmd) \<and>
           (\<forall>g \<in> set ups. map Clients g = clientPartition cmd clients) \<and>
           (\<forall>t \<in> set (concat ups). \<not> isTemplateTask t \<and> \<not> TTY t) \<and>
           map Clients tp = templatePartition cmd clients \<and>
           (\<forall>t \<in> set tp. isTemplateTask t) \<and>
           map Clients sc = clientPartition cmd clients \<and>
           (\<forall>t \<in> set sc. \<not> isTemplateTask t \<and> TTY t) \<and>
           map Clients lo =
             [[LocalhostClientPtr (Connect w \<lparr>l_env = env @ supHostLocalhost\<rparr> ''localhost'')]] \<and>
           (\<forall>t \<in> set lo. \<not> isTemplateTask t \<and> TTY t) \<and>
           map Clients rn = clientPartition cmd clients \<and>
           (\<forall>t \<in> set rn. \<not> isTemplateTask t \<and> TTY t)"
    using s ts 1 2 3 4 5 6 7 8 9 10 11 by (intro conjI)
  then show ?thesis by (intro exI)
qed

theorem createTasks_order_witness:
  "createTasks exampleStackup exampleWorld allFive twoClients ''export A=1;'' =
     Returned
       ([PCommandTask \<lparr>c_run = ''tar -C /srv/app -xzf -'',
           c_input = Some (TarStreamReader ''/home/deploy/dist''),
           c_clients = [OtherClient 0, OtherClient 1], c_tty = False\<rparr>,
         PTemplateTask \<lparr>t_tmpl = ''contents of example/test.tpl'', t_dst = ''/tmp/test'',
           t_vars = Map.empty, t_clients = [OtherClient 0, OtherClient 1]\<rparr>,
         PCommandTask \<lparr>c_run = ''contents of deploy.sh'', c_input = None,
           c_clients = [OtherClient 0, OtherClient 1], c_tty = True\<rparr>,
         PCommandTask \<lparr>c_run = ''echo hi'', c_input = None,
           c_clients = [LocalhostClientPtr \<lparr>l_env = ''export A=1;'' @ supHostLocalhost\<rparr>],
           c_tty = True\<rparr>,
         PCommandTask \<lparr>c_run = ''uptime'', c_input = None,
           c_clients = [OtherClient 0, OtherClient 1], c_tty = True\<rparr>], None) \<and>
   Upload allFive \<noteq> [] \<and> templatePopulated allFive \<and> Script allFive \<noteq> [] \<and>
   Local allFive \<noteq> [] \<and> Run allFive \<noteq> [] \<and>
   clientPartition allFive twoClients = [twoClients] \<and>
   templatePartition allFive twoClients = [twoClients] \<and>
   (\<exists>ups tp sc lo rn.
      sectionTasks exampleStackup exampleWorld allFive twoClients ''export A=1;'' ups tp sc lo rn \<and>
      map Clients tp = templatePartition allFive twoClients \<and>
      (\<forall>t \<in> set tp. isTemplateTask t) \<and>
      map Clients sc = clientPartition allFive twoClients \<and>
      map Clients rn = clientPartition allFive twoClients)"
proof -
  have h: "Upload allFive \<noteq> []" "templatePopulated allFive" "Script allFive \<noteq> []"
      "Local allFive \<noteq> []" "Run allFive \<noteq> []"
      "clientPartition allFive twoClients = [twoClients]"
      "templatePartition allFive twoClients = [twoClients]"
    by (simp_all add: allFive_def emptyCommand_def exampleTemplate_def exampleUpload_def
        templatePopulated_def clientPartition_def templatePartition_def)
  from createTasks_order [OF createTasks_allFive h(1-5)]
  obtain ups tp sc lo rn where
    "sectionTasks exampleStackup exampleWorld allFive twoClients ''export A=1;'' ups tp sc lo rn"
    "map Clients tp = templatePartition allFive twoClients"
    "\<forall>t \<in> set tp. isTemplateTask t"
    "map Clients sc = clientPartition allFive twoClients"
    "map Clients rn = clientPartition allFive twoClients"
    by (elim exE conjE)
  then have "\<exists>ups tp sc lo rn.
      sectionTasks exampleStackup exampleWorld allFive twoClients ''export A=1;'' ups tp sc lo rn \<and>
      map Clients tp = templatePartition allFive twoClients \<and>
      (\<forall>t \<in> set tp. isTemplateTask t) \<and>
      map Clients sc = clientPartition allFive twoClients \<and>
      map Clients rn = clientPartition allFive twoClients"
    by (intro exI conjI)
  then show ?thesis using createTasks_allFive h by (intro conjI)
qed

text \<open>
  C4. An error is never returned together with tasks. When a step of the build fails
  (the working directory, the path or the tar stream of an upload entry, opening or
  reading the template, the script or the variable file, parsing the template, decoding
  the variables), the build returns no task list without an error, and, unless it
  panics on an empty client list under \<open>Once\<close>, it returns the nil list and an error.
  In particular, when the upload entries are built and the template then fails to
  parse, the result is the nil list and the wrapped parse error: the upload tasks
  already in the list are dropped.
\<close>

theorem createTasks_all_or_nothing:
  "(createTasks sup' w cmd clients env = Returned (ts, Some e) \<longrightarrow> ts = []) \<and>
   (stepFails w cmd env \<longrightarrow> createTasks sup' w cmd clients env \<noteq> Returned (ts, None)) \<and>
   (stepFails w cmd env \<and> (Once cmd \<longrightarrow> clients \<noteq> []) \<longrightarrow>
      (\<exists>e'. createTasks sup' w cmd clients env = Returned ([], Some e'))) \<and>
   (Getwd w = Inr cwd \<and>
    (\<forall>upload \<in> set (Upload cmd). \<not> uploadFails w cwd env upload) \<and>
    (Once cmd \<longrightarrow> clients \<noteq> []) \<and>
    templatePopulated cmd \<and>
    Open w (Template.Src (Template cmd)) = Inr f \<and> ReadAll w f = Inr data \<and>
    Parse w data = Inl err \<longrightarrow>
      createTasks sup' w cmd clients env = Returned ([], Some (Wrap err ''can't parse template'')))"
proof (intro conjI impI)
  assume "createTasks sup' w cmd clients env = Returned (ts, Some e)"
  from createTasks_error [OF this] show "ts = []" by (rule conjunct1)
next
  assume f: "stepFails w cmd env"
  show "createTasks sup' w cmd clients env \<noteq> Returned (ts, None)"
  proof
    assume "createTasks sup' w cmd clients env = Returned (ts, None)"
    from createTasks_Returned_ok [OF this] f show False by (rule notE)
  qed
next
  assume a: "stepFails w cmd env \<and> (Once cmd \<longrightarrow> clients \<noteq> [])"
  from a have 1: "stepFails w cmd env" by (rule conjunct1)
  from a have 2: "Once cmd \<longrightarrow> clients \<noteq> []" by (rule conjunct2)
  from 1 2 show "\<exists>e'. createTasks sup' w cmd clients env = Returned ([], Some e')"
    by (rule createTasks_fails)
next
  assume a: "Getwd w = Inr cwd \<and>
    (\<forall>upload \<in> set (Upload cmd). \<not> uploadFails w cwd env upload) \<and>
    (Once cmd \<longrightarrow> clients \<noteq> []) \<and>
    templatePopulated cmd \<and>
    Open w (Template.Src (Template cmd)) = Inr f \<and> ReadAll w f = Inr data \<and>
    Parse w data = Inl err"
  then have g: "Getwd w = Inr cwd"
    and u: "\<forall>upload \<in> set (Upload cmd). \<not> uploadFails w cwd env upload"
    and o: "\<not> (Once cmd \<and> clients = [] \<and> Upload cmd \<noteq> [])"
    and p: "templatePopulated cmd"
    and r: "Open w (Template.Src (Template cmd)) = Inr f" "ReadAll w f = Inr data"
      "Parse w data = Inl err"
    by blast+
  have "templateSection w cmd clients [] = ReturnErr (Wrap err ''can't parse template'')"
    using p r by (rule templateSection_parse_error)
  with g u o
  show "createTasks sup' w cmd clients env = Returned ([], Some (Wrap err ''can't parse template''))"
    by (rule createTasks_template_error)
qed

theorem createTasks_all_or_nothing_witness:
  "stepFails parseFailsWorld allFive [] \<and> \<not> Once allFive \<and> fiveClients \<noteq> [] \<and>
   Getwd parseFailsWorld = Inr ''/home/deploy'' \<and>
   Upload allFive = [exampleUpload] \<and>
   \<not> uploadFails parseFailsWorld ''/home/deploy'' [] exampleUpload \<and>
   templatePopulated allFive \<and>
   Open parseFailsWorld (Template.Src (Template allFive)) = Inr ''example/test.tpl'' \<and>
   ReadAll parseFailsWorld ''example/test.tpl'' = Inr ''contents of example/test.tpl'' \<and>
   Parse parseFailsWorld ''contents of example/test.tpl'' = Inl ''template: tpl:1: unexpected EOF'' \<and>
   createTasks exampleStackup parseFailsWorld allFive fiveClients [] =
     Returned ([], Some (Wrap ''template: tpl:1: unexpected EOF'' ''can't parse template'')) \<and>
   createTasks exampleStackup parseFailsWorld allFive fiveClients [] \<noteq> Returned ([], None)"
proof -
  have h: "stepFails parseFailsWorld allFive []" "Once allFive \<longrightarrow> fiveClients \<noteq> []"
    "Getwd parseFailsWorld = Inr ''/home/deploy''"
    "\<forall>upload \<in> set (Upload allFive). \<not> uploadFails parseFailsWorld ''/home/deploy'' [] upload"
    "Upload allFive \<noteq> []" "templatePopulated allFive"
    "Open parseFailsWorld (Template.Src (Template allFive)) = Inr ''example/test.tpl''"
    "ReadAll parseFailsWorld ''example/test.tpl'' = Inr ''contents of example/test.tpl''"
    "Parse parseFailsWorld ''contents of example/test.tpl'' = Inl ''template: tpl:1: unexpected EOF''"
    "\<not> Once allFive" "fiveClients \<noteq> []" "Upload allFive = [exampleUpload]"
    "\<not> uploadFails parseFailsWorld ''/home/deploy'' [] exampleUpload"
    by (simp_all add: stepFails_def uploadFails_def templateFails_def templatePopulated_def
        readFails_def dataOf_def allFive_def parseFailsWorld_def example_defs)
  note t = createTasks_all_or_nothing [of exampleStackup parseFailsWorld allFive fiveClients "[]"
      "[]" _ "''/home/deploy''" "''example/test.tpl''" "''contents of example/test.tpl''"
      "''template: tpl:1: unexpected EOF''"]
  from t h have
    "createTasks exampleStackup parseFailsWorld allFive fiveClients [] =
       Returned ([], Some (Wrap ''template: tpl:1: unexpected EOF'' ''can't parse template''))"
    and "createTasks exampleStackup parseFailsWorld allFive fiveClients [] \<noteq> Returned ([], None)"
    by simp_all
  then show ?thesis using h(1,3,6-13) by (intro conjI)
qed

text \<open>
  C8, as amended. When the variable file is read and does not decode, the build returns
  the nil list and an error whose message is \<open>can't parse variables: \<close> followed by the
  message of the decoder. The decoder is given the bytes of the file, not its path, and
  the builder adds no path to the message.
\<close>

theorem createTasks_decode_error:
  assumes "Getwd w = Inr cwd"
    and "\<forall>upload \<in> set (Upload cmd). \<not> uploadFails w cwd env upload"
    and "Once cmd \<and> Upload cmd \<noteq> [] \<longrightarrow> clients \<noteq> []"
    and "templatePopulated cmd"
    and "Open w (Template.Src (Template cmd)) = Inr f" and "ReadAll w f = Inr data"
    and "Parse w data = Inr tmpl"
    and "Vars (Template cmd) \<noteq> []"
    and "Open w (Vars (Template cmd)) = Inr varf" and "ReadAll w varf = Inr vardata"
    and "Unmarshal w vardata = Inl err"
  shows "createTasks sup' w cmd clients env =
           Returned ([], Some (''can't parse variables: '' @ err))"
proof -
  have o: "\<not> (Once cmd \<and> clients = [] \<and> Upload cmd \<noteq> [])"
    using assms(3) by blast
  have "templateSection w cmd clients [] = ReturnErr (Wrap err ''can't parse variables'')"
    using assms(4-11) by (rule templateSection_decode_error)
  with assms(1,2) o
  have "createTasks sup' w cmd clients env =
          Returned ([], Some (Wrap err ''can't parse variables''))"
    by (rule createTasks_template_error)
  then show ?thesis by (simp add: Wrap_def)
qed

theorem createTasks_decode_error_witness:
  "Getwd decodeFailsWorld = Inr ''/home/deploy'' \<and>
   templatePopulated (emptyCommand\<lparr>Template := exampleTemplate\<rparr>) \<and>
   Vars (Template (emptyCommand\<lparr>Template := exampleTemplate\<rparr>)) = ''example/test.yml'' \<and>
   Unmarshal decodeFailsWorld ''contents of example/test.yml'' =
     Inl ''yaml: line 1: did not find expected key'' \<and>
   createTasks exampleStackup decodeFailsWorld (emptyCommand\<lparr>Template := exampleTemplate\<rparr>)
       fiveClients [] =
     Returned ([], Some (''can't parse variables: '' @ ''yaml: line 1: did not find expected key''))"
proof -
  let ?cmd = "emptyCommand\<lparr>Template := exampleTemplate\<rparr>"
  have h: "Getwd decodeFailsWorld = Inr ''/home/deploy''"
    "\<forall>upload \<in> set (Upload ?cmd). \<not> uploadFails decodeFailsWorld ''/home/deploy'' [] upload"
    "Once ?cmd \<and> Upload ?cmd \<noteq> [] \<longrightarrow> fiveClients \<noteq> []"
    "templatePopulated ?cmd"
    "Open decodeFailsWorld (Template.Src (Template ?cmd)) = Inr ''example/test.tpl''"
    "ReadAll decodeFailsWorld ''example/test.tpl'' = Inr ''contents of example/test.tpl''"
    "Parse decodeFailsWorld ''contents of example/test.tpl'' = Inr ''contents of example/test.tpl''"
    "Vars (Template ?cmd) \<noteq> []"
    "Open decodeFailsWorld (Vars (Template ?cmd)) = Inr ''example/test.yml''"
    "ReadAll decodeFailsWorld ''example/test.yml'' = Inr ''contents of example/test.yml''"
    "Unmarshal decodeFailsWorld ''contents of example/test.yml'' =
       Inl ''yaml: line 1: did not find expected key''"
    "Vars (Template ?cmd) = ''example/test.yml''"
    by (simp_all add: templatePopulated_def decodeFailsWorld_def example_defs)
  note t = createTasks_decode_error [OF h(1-11), of exampleStackup]
  show ?thesis using h(1,4,12,11) t by (intro conjI)
qed

text \<open>
  C8 as stated fails: the decoder's message is all that follows the fixed text, and here
  it does not hold the path \<open>example/test.yml\<close> of the variable file.
\<close>

theorem createTasks_decode_error_counterexample:
  "Vars (Template (emptyCommand\<lparr>Template := exampleTemplate\<rparr>)) = ''example/test.yml'' \<and>
   createTasks exampleStackup decodeFailsWorld (emptyCommand\<lparr>Template := exampleTemplate\<rparr>)
       fiveClients [] =
     Returned ([], Some ''can't parse variables: yaml: line 1: did not find expected key'') \<and>
   \<not> Contains ''can't parse variables: yaml: line 1: did not find expected key''
       ''example/test.yml''"
  by (simp add: decodeFailsWorld_def example_defs builder_defs Wrap_def)

text \<open>
  C5. When the template is populated, \<open>Once\<close> is set and the build succeeds, the
  template tasks of the result are one task for the entire client list when
  \<open>Serial\<close> is not positive, and one task for each consecutive chunk of \<open>Serial\<close>
  clients otherwise; the template part of the builder does the same whatever \<open>Once\<close>
  is.
\<close>

theorem template_ignores_Once:
  assumes "createTasks sup' w cmd clients env = Returned (ts, None)"
    and "templatePopulated cmd" and "Once cmd"
  shows "map Clients (filter isTemplateTask ts) =
           (if 0 < Serial cmd then chunks (nat (Serial cmd)) clients else [clients]) \<and>
         templateSection w (cmd\<lparr>Once := False\<rparr>) clients tasks =
           templateSection w cmd clients tasks"
proof -
  from assms(1) obtain ups tp sc lo rn where
    s: "sectionTasks sup' w cmd clients env ups tp sc lo rn" and
    ts: "ts = concat ups @ tp @ sc @ lo @ rn"
    by (auto simp: createTasks_Returned)
  from s obtain cwd where
    u: "list_all2 (\<lambda>upload g. uploadEntry w cmd clients env cwd upload [] = Continue g)
          (Upload cmd) ups" and
    t: "templateSection w cmd clients [] = Continue tp" and
    c: "scriptSection sup' w cmd clients [] = Continue sc" and
    l: "localSection sup' w cmd env [] = Continue lo" and
    r: "runSection sup' cmd clients [] = Continue rn"
    by (rule sectionTasksD) blast
  have f1: "filter isTemplateTask (concat ups) = []"
    using uploads_kind [OF u] by (intro filter_none) blast
  have f2: "filter isTemplateTask tp = tp"
    using templateSection_Continue(2) [OF t assms(2)] by (rule filter_all)
  have f3: "filter isTemplateTask sc = []"
    using scriptSection_kind [OF c] by (intro filter_none) blast
  have f4: "filter isTemplateTask lo = []"
    using localSection_kind [OF l] by (intro filter_none) blast
  have f5: "filter isTemplateTask rn = []"
    using runSection_kind [OF r] by (intro filter_none) blast
  have "filter isTemplateTask ts = tp"
    by (simp only: ts filter_append f1 f2 f3 f4 f5 append_Nil append_Nil2)
  then have "map Clients (filter isTemplateTask ts) = templatePartition cmd clients"
    using templateSection_Continue(1) [OF t assms(2)] by simp
  then show ?thesis
    by (simp add: templatePartition_def templateSection_Once)
qed

theorem template_ignores_Once_witness:
  "createTasks exampleStackup exampleWorld (emptyCommand\<lparr>Template := exampleTemplate, Once := True\<rparr>)
       twoClients [] =
     Returned
       ([PTemplateTask \<lparr>t_tmpl = ''contents of example/test.tpl'', t_dst = ''/tmp/test'',
           t_vars = Map.empty, t_clients = [OtherClient 0, OtherClient 1]\<rparr>], None) \<and>
   templatePopulated (emptyCommand\<lparr>Template := exampleTemplate, Once := True\<rparr>) \<and>
   Once (emptyCommand\<lparr>Template := exampleTemplate, Once := True\<rparr>) \<and>
   Serial (emptyCommand\<lparr>Template := exampleTemplate, Once := True\<rparr>) = 0 \<and>
   map Clients (filter isTemplateTask
       [PTemplateTask \<lparr>t_tmpl = ''contents of example/test.tpl'', t_dst = ''/tmp/test'',
          t_vars = Map.empty, t_clients = [OtherClient 0, OtherClient 1]\<rparr>]) = [twoClients]"
proof -
  let ?cmd = "emptyCommand\<lparr>Template := exampleTemplate, Once := True\<rparr>"
  have h: "templatePopulated ?cmd" "Once ?cmd" "Serial ?cmd = 0"
    by (simp_all add: templatePopulated_def example_defs)
  note t = template_ignores_Once [OF createTasks_onceTemplate h(1,2), THEN conjunct1]
  have "map Clients (filter isTemplateTask
       [PTemplateTask \<lparr>t_tmpl = ''contents of example/test.tpl'', t_dst = ''/tmp/test'',
          t_vars = Map.empty, t_clients = [OtherClient 0, OtherClient 1]\<rparr>]) = [twoClients]"
    using t h(3) by simp
  then show ?thesis using createTasks_onceTemplate h by (intro conjI)
qed

text \<open>
  C6, as amended. When the build succeeds on a non-empty client list, every task of the
  upload entries, the template, the script and the remote command has a non-empty
  client set that is a slice \<open>clients[i:j]\<close> of the client list; the client set of the
  task of the local command is the one localhost client the builder creates.
\<close>

theorem createTasks_contiguous:
  assumes "createTasks sup' w cmd clients env = Returned (ts, None)"
    and "clients \<noteq> []"
  shows "\<exists>ups tp sc lo rn.
           sectionTasks sup' w cmd clients env ups tp sc lo rn \<and>
           ts = concat ups @ tp @ sc @ lo @ rn \<and>
           (\<forall>t \<in> set (concat ups @ tp @ sc @ rn).
              Clients t \<noteq> [] \<and>
              (\<exists>i j. i < j \<and> j \<le> length clients \<and> Clients t = slice clients i j)) \<and>
           (\<forall>t \<in> set lo.
              Clients t =
                [LocalhostClientPtr (Connect w \<lparr>l_env = env @ supHostLocalhost\<rparr> ''localhost'')])"
proof -
  from assms(1) obtain ups tp sc lo rn where
    s: "sectionTasks sup' w cmd clients env ups tp sc lo rn" and
    ts: "ts = concat ups @ tp @ sc @ lo @ rn"
    by (auto simp: createTasks_Returned)
  from s obtain cwd where
    u: "list_all2 (\<lambda>upload g. uploadEntry w cmd clients env cwd upload [] = Continue g)
          (Upload cmd) ups" and
    t: "templateSection w cmd clients [] = Continue tp" and
    c: "scriptSection sup' w cmd clients [] = Continue sc" and
    l: "localSection sup' w cmd env [] = Continue lo" and
    r: "runSection sup' cmd clients [] = Continue rn"
    by (rule sectionTasksD) blast
  let ?ok = "\<lambda>t. Clients t \<noteq> [] \<and>
      (\<exists>i j. i < j \<and> j \<le> length clients \<and> Clients t = slice clients i j)"
  note sl = slice_ok
  have 1: "\<forall>x \<in> set (concat ups). ?ok x"
  proof
    fix x assume "x \<in> set (concat ups)"
    then obtain g where g: "g \<in> set ups" "x \<in> set g" by auto
    from list_all2_right [OF u g(1)]
    obtain upload where "uploadEntry w cmd clients env cwd upload [] = Continue g" by blast
    from uploadEntry_Continue(2) [OF this]
    have "Clients x \<in> set (clientPartition cmd clients)"
      using g(2) by (rule Clients_in_map [rotated])
    then have "\<exists>i j. i < j \<and> j \<le> length clients \<and> Clients x = slice clients i j"
      using assms(2) by (rule clientPartition_slices)
    then show "?ok x" by (rule sl)
  qed
  have 2: "\<forall>x \<in> set tp. ?ok x"
  proof (cases "templatePopulated cmd")
    case False
    then have "tp = []" using t by (simp add: templateSection_empty)
    then show ?thesis by simp
  next
    case True
    show ?thesis
    proof
      fix x assume x: "x \<in> set tp"
      from templateSection_Continue(1) [OF t True]
      have "Clients x \<in> set (templatePartition cmd clients)"
        using x by (rule Clients_in_map [rotated])
      then have "\<exists>i j. i < j \<and> j \<le> length clients \<and> Clients x = slice clients i j"
        using assms(2) by (rule templatePartition_slices)
      then show "?ok x" by (rule sl)
    qed
  qed
  have 3: "\<forall>x \<in> set sc. ?ok x"
  proof (cases "Script cmd = []")
    case True
    then have "sc = []" using c by (simp add: scriptSection_empty)
    then show ?thesis by simp
  next
    case False
    show ?thesis
    proof
      fix x assume x: "x \<in> set sc"
      from scriptSection_Continue(2) [OF c False]
      have "Clients x \<in> set (clientPartition cmd clients)"
        using x by (rule Clients_in_map [rotated])
      then have "\<exists>i j. i < j \<and> j \<le> length clients \<and> Clients x = slice clients i j"
        using assms(2) by (rule clientPartition_slices)
      then show "?ok x" by (rule sl)
    qed
  qed
  have 4: "\<forall>x \<in> set rn. ?ok x"
  proof (cases "Run cmd = []")
    case True
    then have "rn = []" using r by (simp add: runSection_empty)
    then show ?thesis by simp
  next
    case False
    show ?thesis
    proof
      fix x assume x: "x \<in> set rn"
      from runSection_Continue(2) [OF r False]
      have "Clients x \<in> set (clientPartition cmd clients)"
        using x by (rule Clients_in_map [rotated])
      then have "\<exists>i j. i < j \<and> j \<le> length clients \<and> Clients x = slice clients i j"
        using assms(2) by (rule clientPartition_slices)
      then show "?ok x" by (rule sl)
    qed
  qed
  have 5: "\<forall>x \<in> set (concat ups @ tp @ sc @ rn). ?ok x"
  proof
    fix x assume "x \<in> set (concat ups @ tp @ sc @ rn)"
    then have "x \<in> set (concat ups) \<or> x \<in> set tp \<or> x \<in> set sc \<or> x \<in> set rn"
      by (simp only: set_append Un_iff)
    then show "?ok x"
    proof (elim disjE)
      assume "x \<in> set (concat ups)"
      with 1 show "?ok x" by (rule bspec)
    next
      assume "x \<in> set tp"
      with 2 show "?ok x" by (rule bspec)
    next
      assume "x \<in> set sc"
      with 3 show "?ok x" by (rule bspec)
    next
      assume "x \<in> set rn"
      with 4 show "?ok x" by (rule bspec)
    qed
  qed
  have 6: "\<forall>t \<in> set lo. Clients t =
      [LocalhostClientPtr (Connect w \<lparr>l_env = env @ supHostLocalhost\<rparr> ''localhost'')]"
    using l by (auto simp: localSection_eq split: if_splits)
  have "sectionTasks sup' w cmd clients env ups tp sc lo rn \<and>
           ts = concat ups @ tp @ sc @ lo @ rn \<and>
           (\<forall>t \<in> set (concat ups @ tp @ sc @ rn). ?ok t) \<and>
           (\<forall>t \<in> set lo.
              Clients t =
                [LocalhostClientPtr (Connect w \<lparr>l_env = env @ supHostLocalhost\<rparr> ''localhost'')])"
    using s ts 5 6 by (intro conjI)
  then show ?thesis by (intro exI)
qed

theorem createTasks_contiguous_witness:
  "createTasks exampleStackup exampleWorld serialRun fiveClients [] =
     Returned
       ([PCommandTask \<lparr>c_run = ''uptime'', c_input = None,
           c_clients = [OtherClient 0, OtherClient 1], c_tty = True\<rparr>,
         PCommandTask \<lparr>c_run = ''uptime'', c_input = None,
           c_clients = [OtherClient 2, OtherClient 3], c_tty = True\<rparr>,
         PCommandTask \<lparr>c_run = ''uptime'', c_input = None,
           c_clients = [OtherClient 4], c_tty = True\<rparr>], None) \<and>
   fiveClients \<noteq> [] \<and>
   (\<exists>ups tp sc lo rn.
      sectionTasks exampleStackup exampleWorld serialRun fiveClients [] ups tp sc lo rn \<and>
      [PCommandTask \<lparr>c_run = ''uptime'', c_input = None,
           c_clients = [OtherClient 0, OtherClient 1], c_tty = True\<rparr>,
         PCommandTask \<lparr>c_run = ''uptime'', c_input = None,
           c_clients = [OtherClient 2, OtherClient 3], c_tty = True\<rparr>,
         PCommandTask \<lparr>c_run = ''uptime'', c_input = None,
           c_clients = [OtherClient 4], c_tty = True\<rparr>] = concat ups @ tp @ sc @ lo @ rn \<and>
      (\<forall>t \<in> set (concat ups @ tp @ sc @ rn).
         Clients t \<noteq> [] \<and>
         (\<exists>i j. i < j \<and> j \<le> length fiveClients \<and> Clients t = slice fiveClients i j)) \<and>
      (\<forall>t \<in> set lo.
         Clients t =
           [LocalhostClientPtr (Connect exampleWorld \<lparr>l_env = [] @ supHostLocalhost\<rparr> ''localhost'')]))"
proof -
  have h: "fiveClients \<noteq> []" by (simp add: fiveClients_def)
  note t = createTasks_contiguous [OF createTasks_serialRun h]
  show ?thesis using createTasks_serialRun h t by (intro conjI)
qed

text \<open>
  C6 without its two exceptions fails. The task of the local command has a client set
  that is not drawn from the client list, and with neither \<open>Once\<close> nor \<open>Serial\<close> an
  empty client list gives a task with an empty client set.
\<close>

theorem createTasks_contiguous_counterexample:
  "createTasks exampleStackup exampleWorld (emptyCommand\<lparr>Local := ''echo hi''\<rparr>) fiveClients [] =
     Returned
       ([PCommandTask \<lparr>c_run = ''echo hi'', c_input = None,
           c_clients = [LocalhostClientPtr \<lparr>l_env = supHostLocalhost\<rparr>],
           c_tty = True\<rparr>], None) \<and>
   LocalhostClientPtr \<lparr>l_env = supHostLocalhost\<rparr> \<notin> set fiveClients \<and>
   createTasks exampleStackup exampleWorld (emptyCommand\<lparr>Run := ''uptime''\<rparr>)
       ([] :: nat Client list) [] =
     Returned
       ([PCommandTask \<lparr>c_run = ''uptime'', c_input = None, c_clients = [], c_tty = True\<rparr>],
        None)"
  by (simp add: example_defs builder_defs)

text \<open>
  C9. When \<open>Local\<close> is populated, the local part of the builder appends exactly one
  task to whatever task list it is given: a command task with the TTY flag set whose
  client set is the one localhost client. That client is created with the environment
  prefix followed by the text \<open>export SUP_HOST="localhost";\<close> (the character \<open>0x22\<close>
  is the double quote) and is then connected; it carries that environment whenever
  connecting leaves the environment of a client alone. The part reads neither the client
  list nor \<open>Once\<close> nor \<open>Serial\<close>. When the build succeeds, on any client list, this
  task stands between the script tasks and the tasks of the remote command.
\<close>

theorem localSection_one_task:
  assumes "Local cmd \<noteq> []"
  shows "let local = Connect w \<lparr>l_env = env @ (''export SUP_HOST='' @ [CHR 0x22] @ ''localhost'' @ [CHR 0x22] @ '';'')\<rparr> ''localhost'';
             task = PCommandTask
               \<lparr>c_run = (if debug sup' then ''set -x;'' @ Local cmd else Local cmd),
                c_input = (if Stdin cmd then Some OsStdin else None),
                c_clients = [LocalhostClientPtr local],
                c_tty = True\<rparr>
         in localSection sup' w cmd env tasks = Continue (tasks @ [task]) \<and>
            TTY task \<and> Clients task = [LocalhostClientPtr local] \<and>
            ((\<forall>l address. l_env (Connect w l address) = l_env l) \<longrightarrow>
               l_env local = env @ (''export SUP_HOST='' @ [CHR 0x22] @ ''localhost'' @ [CHR 0x22] @ '';'')) \<and>
            (createTasks sup' w cmd clients env = Returned (ts, None) \<longrightarrow>
               (\<exists>ups tp sc rn.
                  sectionTasks sup' w cmd clients env ups tp sc [task] rn \<and>
                  ts = concat ups @ tp @ sc @ [task] @ rn))"
proof -
  let ?task = "PCommandTask
               \<lparr>c_run = (if debug sup' then ''set -x;'' @ Local cmd else Local cmd),
                c_input = (if Stdin cmd then Some OsStdin else None),
                c_clients = [LocalhostClientPtr
                  (Connect w \<lparr>l_env = env @ (''export SUP_HOST='' @ [CHR 0x22] @ ''localhost'' @ [CHR 0x22] @ '';'')\<rparr> ''localhost'')],
                c_tty = True\<rparr>"
  have 1: "\<And>tasks. localSection sup' w cmd env tasks = Continue (tasks @ [?task])"
    using assms by (simp add: localSection_eq supHostLocalhost_def)
  have 2: "createTasks sup' w cmd clients env = Returned (ts, None) \<longrightarrow>
               (\<exists>ups tp sc rn.
                  sectionTasks sup' w cmd clients env ups tp sc [?task] rn \<and>
                  ts = concat ups @ tp @ sc @ [?task] @ rn)"
  proof
    assume "createTasks sup' w cmd clients env = Returned (ts, None)"
    then obtain ups tp sc lo rn where
      s: "sectionTasks sup' w cmd clients env ups tp sc lo rn" and
      ts: "ts = concat ups @ tp @ sc @ lo @ rn"
      by (auto simp: createTasks_Returned)
    from s obtain cwd where "localSection sup' w cmd env [] = Continue lo"
      by (rule sectionTasksD) blast
    then have "Continue ([] @ [?task]) = Continue lo" by (simp only: 1)
    then have "lo = [?task]" by simp
    then have "sectionTasks sup' w cmd clients env ups tp sc [?task] rn \<and>
        ts = concat ups @ tp @ sc @ [?task] @ rn"
      using s ts by simp
    then show "\<exists>ups tp sc rn.
        sectionTasks sup' w cmd clients env ups tp sc [?task] rn \<and>
        ts = concat ups @ tp @ sc @ [?task] @ rn"
      by (intro exI)
  qed
  have 3: "(\<forall>l address. l_env (Connect w l address) = l_env l) \<longrightarrow>
      l_env (Connect w \<lparr>l_env = env @ (''export SUP_HOST='' @ [CHR 0x22] @ ''localhost'' @ [CHR 0x22] @ '';'')\<rparr> ''localhost'') = env @ (''export SUP_HOST='' @ [CHR 0x22] @ ''localhost'' @ [CHR 0x22] @ '';'')"
    by simp
  show ?thesis using 1 [of tasks] 2 3 by (simp add: Let_def)
qed

theorem localSection_one_task_witness:
  "Local (emptyCommand\<lparr>Local := ''echo hi''\<rparr>) \<noteq> [] \<and>
   createTasks exampleStackup exampleWorld (emptyCommand\<lparr>Local := ''echo hi''\<rparr>)
       ([] :: nat Client list) ''export A=1;'' =
     Returned
       ([PCommandTask \<lparr>c_run = ''echo hi'', c_input = None,
           c_clients = [LocalhostClientPtr \<lparr>l_env = ''export A=1;'' @ (''export SUP_HOST='' @ [CHR 0x22] @ ''localhost'' @ [CHR 0x22] @ '';'')\<rparr>],
           c_tty = True\<rparr>], None) \<and>
   localSection exampleStackup exampleWorld (emptyCommand\<lparr>Local := ''echo hi''\<rparr>) ''export A=1;''
       ([] :: (nat, string, string, string) Task list) =
     Continue
       [PCommandTask \<lparr>c_run = ''echo hi'', c_input = None,
           c_clients = [LocalhostClientPtr \<lparr>l_env = ''export A=1;'' @ (''export SUP_HOST='' @ [CHR 0x22] @ ''localhost'' @ [CHR 0x22] @ '';'')\<rparr>],
           c_tty = True\<rparr>] \<and>
   l_env (Connect exampleWorld \<lparr>l_env = ''export A=1;'' @ (''export SUP_HOST='' @ [CHR 0x22] @ ''localhost'' @ [CHR 0x22] @ '';'')\<rparr> ''localhost'') =
     ''export A=1;'' @ (''export SUP_HOST='' @ [CHR 0x22] @ ''localhost'' @ [CHR 0x22] @ '';'') \<and>
   length (''export A=1;'' @ (''export SUP_HOST='' @ [CHR 0x22] @ ''localhost'' @ [CHR 0x22] @ '';'')) = 39"
proof -
  let ?cmd = "emptyCommand\<lparr>Local := ''echo hi''\<rparr>"
  have h: "Local ?cmd \<noteq> []" by (simp add: emptyCommand_def)
  have e: "debug exampleStackup = False" "Stdin ?cmd = False" "Local ?cmd = ''echo hi''"
    "\<And>local address. Connect exampleWorld local address = local"
    by (simp_all add: example_defs)
  have k: "\<forall>l address. l_env (Connect exampleWorld l address) = l_env l"
    by (simp add: e(4))
  note t = localSection_one_task [OF h, where w = exampleWorld and env = "''export A=1;''"
      and sup' = exampleStackup and tasks = "[]" and clients = "[] :: nat Client list"
      and ts = "[]"]
  from t have 1: "localSection exampleStackup exampleWorld ?cmd ''export A=1;''
       ([] :: (nat, string, string, string) Task list) =
     Continue
       [PCommandTask \<lparr>c_run = ''echo hi'', c_input = None,
           c_clients = [LocalhostClientPtr \<lparr>l_env = ''export A=1;'' @ (''export SUP_HOST='' @ [CHR 0x22] @ ''localhost'' @ [CHR 0x22] @ '';'')\<rparr>],
           c_tty = True\<rparr>]"
    by (simp add: Let_def e)
  from t k have 2: "l_env (Connect exampleWorld \<lparr>l_env = ''export A=1;'' @ (''export SUP_HOST='' @ [CHR 0x22] @ ''localhost'' @ [CHR 0x22] @ '';'')\<rparr> ''localhost'') =
     ''export A=1;'' @ (''export SUP_HOST='' @ [CHR 0x22] @ ''localhost'' @ [CHR 0x22] @ '';'')"
    by (simp add: Let_def)
  have 3: "createTasks exampleStackup exampleWorld ?cmd ([] :: nat Client list) ''export A=1;'' =
     Returned
       ([PCommandTask \<lparr>c_run = ''echo hi'', c_input = None,
           c_clients = [LocalhostClientPtr \<lparr>l_env = ''export A=1;'' @ (''export SUP_HOST='' @ [CHR 0x22] @ ''localhost'' @ [CHR 0x22] @ '';'')\<rparr>],
           c_tty = True\<rparr>], None)"
    using createTasks_localOnly by (simp add: supHostLocalhost_def)
  have 4: "length (''export A=1;'' @ (''export SUP_HOST='' @ [CHR 0x22] @ ''localhost'' @ [CHR 0x22] @ '';'')) = 39" by simp
  show ?thesis using h 1 2 3 4 by (intro conjI)
qed

text \<open>
  C10. The \<open>Once\<close> branch of a command task reads \<open>clients[0]\<close> with no test of the
  length: on an empty client list it panics. The build panics only when \<open>Once\<close> is
  set, one of \<open>Upload\<close>, \<open>Script\<close> and \<open>Run\<close> is populated and the client list is
  empty; in that case, when no construction step fails before, it does panic instead
  of returning an error. On a non-empty client list it never panics.
\<close>

theorem createTasks_index_first:
  "(Once cmd \<longrightarrow> appendCommandTask cmd [] task tasks = IndexPanic) \<and>
   (createTasks sup' w cmd clients env = Panicked \<longrightarrow> indexesFirst cmd \<and> clients = []) \<and>
   (clients \<noteq> [] \<longrightarrow> createTasks sup' w cmd clients env \<noteq> Panicked) \<and>
   (indexesFirst cmd \<and> clients = [] \<and> \<not> stepFails w cmd env \<longrightarrow>
      createTasks sup' w cmd clients env = Panicked)"
proof (intro conjI impI)
  assume "Once cmd"
  then show "appendCommandTask cmd [] task tasks = IndexPanic"
    by (rule appendCommandTask_panic)
next
  assume "createTasks sup' w cmd clients env = Panicked"
  then show "indexesFirst cmd" "clients = []"
    using createTasks_Panicked by blast+
next
  assume ne: "clients \<noteq> []"
  show "createTasks sup' w cmd clients env \<noteq> Panicked"
  proof
    assume "createTasks sup' w cmd clients env = Panicked"
    from createTasks_Panicked [OF this] ne show False by simp
  qed
next
  assume a: "indexesFirst cmd \<and> clients = [] \<and> \<not> stepFails w cmd env"
  then have "indexesFirst cmd" "clients = []" "\<not> stepFails w cmd env" by simp_all
  then show "createTasks sup' w cmd clients env = Panicked"
    by (rule createTasks_panics)
qed

theorem createTasks_index_first_witness:
  "Once (emptyCommand\<lparr>Run := ''uptime'', Once := True\<rparr>) \<and>
   indexesFirst (emptyCommand\<lparr>Run := ''uptime'', Once := True\<rparr>) \<and>
   \<not> stepFails exampleWorld (emptyCommand\<lparr>Run := ''uptime'', Once := True\<rparr>) [] \<and>
   createTasks exampleStackup exampleWorld (emptyCommand\<lparr>Run := ''uptime'', Once := True\<rparr>)
       ([] :: nat Client list) [] = Panicked \<and>
   createTasks exampleStackup exampleWorld (emptyCommand\<lparr>Run := ''uptime'', Once := True\<rparr>)
       fiveClients [] \<noteq> Panicked"
proof -
  let ?cmd = "emptyCommand\<lparr>Run := ''uptime'', Once := True\<rparr>"
  have h: "Once ?cmd" "indexesFirst ?cmd" "\<not> stepFails exampleWorld ?cmd []"
    "fiveClients \<noteq> []"
    by (simp_all add: indexesFirst_def stepFails_def templateFails_def templatePopulated_def
        scriptFails_def example_defs)
  note t1 = createTasks_index_first [where cmd = ?cmd and sup' = exampleStackup
      and w = exampleWorld and clients = "[] :: nat Client list" and env = "[]",
      THEN conjunct2, THEN conjunct2, THEN conjunct2]
  note t2 = createTasks_index_first [where cmd = ?cmd and sup' = exampleStackup
      and w = exampleWorld and clients = fiveClients and env = "[]",
      THEN conjunct2, THEN conjunct2, THEN conjunct1]
  have 1: "createTasks exampleStackup exampleWorld ?cmd ([] :: nat Client list) [] = Panicked"
    using t1 h by simp
  have 2: "createTasks exampleStackup exampleWorld ?cmd fiveClients [] \<noteq> Panicked"
    using t2 h by simp
  show ?thesis using h 1 2 by (intro conjI)
qed




end
